theory Spec2Isabelle
  imports Complex_Main
begin

section \<open>Department eligibility (routes/onboarding.js)\<close>

subsection \<open>Primary-department priority\<close>

text \<open>
  \<^verbatim>\<open>DEPARTMENT_HIERARCHY\<close>, from high to low priority (onboarding.js, lines 22-30).
\<close>

definition DEPARTMENT_HIERARCHY :: "string list" where
  "DEPARTMENT_HIERARCHY =
     [''corporate'', ''moderation'', ''public-relations'', ''talent-acquisition'',
      ''hr'', ''mr'', ''lr'']"

text \<open>\<^verbatim>\<open>Array.prototype.indexOf\<close>: the first position of the element, \<open>-1\<close> when absent.\<close>

fun indexOf :: "string list \<Rightarrow> string \<Rightarrow> int" where
  "indexOf [] s = -1"
| "indexOf (x # xs) s =
     (if x = s then 0 else (let i = indexOf xs s in if i = -1 then -1 else i + 1))"

text \<open>
  One element of \<^verbatim>\<open>deptResults\<close>, as pushed by the \<^verbatim>\<open>/eligible\<close> handler:
  \<^verbatim>\<open>{id, name, role, rank, eligible, status}\<close>. \<^verbatim>\<open>role\<close> and \<^verbatim>\<open>rank\<close> are
  \<^verbatim>\<open>null\<close> when the user is not in the backing group.
\<close>

record dept_result =
  dr_id :: string
  dr_name :: string
  dr_role :: "string option"
  dr_rank :: "int option"
  dr_eligible :: bool
  dr_status :: string

text \<open>The comparator handed to \<^verbatim>\<open>sort\<close> in \<^verbatim>\<open>getHighestPriorityDepartment\<close>.\<close>

definition priority_compare :: "dept_result \<Rightarrow> dept_result \<Rightarrow> int" where
  "priority_compare a b =
     (let aIndex = indexOf DEPARTMENT_HIERARCHY (dr_id a);
          bIndex = indexOf DEPARTMENT_HIERARCHY (dr_id b)
      in if aIndex = -1 \<and> bIndex = -1 then 0
         else if aIndex = -1 then 1
         else if bIndex = -1 then -1
         else aIndex - bIndex)"

text \<open>
  \<^verbatim>\<open>Array.prototype.sort\<close> with a comparator is a stable sort: an element moves in front
  of an earlier one only when the comparator puts it strictly first. It is modelled as a
  stable insertion sort driven by the comparator.
\<close>

fun insert_by :: "('a \<Rightarrow> 'a \<Rightarrow> int) \<Rightarrow> 'a \<Rightarrow> 'a list \<Rightarrow> 'a list" where
  "insert_by cmp x [] = [x]"
| "insert_by cmp x (y # ys) =
     (if cmp x y \<le> 0 then x # y # ys else y # insert_by cmp x ys)"

definition sort_by :: "('a \<Rightarrow> 'a \<Rightarrow> int) \<Rightarrow> 'a list \<Rightarrow> 'a list" where
  "sort_by cmp xs = foldr (insert_by cmp) xs []"

text \<open>
  \<^verbatim>\<open>getHighestPriorityDepartment\<close> (lines 556-575). The handler always passes an array,
  so the \<^verbatim>\<open>!eligibleDepartments\<close> test reduces to the emptiness test. \<open>None\<close> is
  \<^verbatim>\<open>null\<close>.
\<close>

definition getHighestPriorityDepartment :: "dept_result list \<Rightarrow> string option" where
  "getHighestPriorityDepartment eligibleDepartments =
     (if eligibleDepartments = [] then None
      else (let sortedByPriority = sort_by priority_compare (filter dr_eligible eligibleDepartments)
            in case sortedByPriority of [] \<Rightarrow> None | d # _ \<Rightarrow> Some (dr_id d)))"

text \<open>
  The position of a department in the hierarchy as a rank: its index when listed, the
  length of the hierarchy (after every listed department) when absent.
\<close>

definition hierarchy_rank :: "string \<Rightarrow> nat" where
  "hierarchy_rank d =
     (if d \<in> set DEPARTMENT_HIERARCHY
      then nat (indexOf DEPARTMENT_HIERARCHY d) else length DEPARTMENT_HIERARCHY)"

subsection \<open>The \<^verbatim>\<open>/eligible\<close> handler\<close>

text \<open>
  The external group service answers with a list of \<^verbatim>\<open>{group: {id}, role: {name, rank}}\<close>.
  Group ids are object keys in the handler, hence strings.
\<close>

record membership =
  m_groupId :: string
  m_roleName :: string
  m_roleRank :: int

record group_role =
  gr_name :: string
  gr_rank :: int

text \<open>\<^verbatim>\<open>groupRoleMap\<close>: a later entry for the same group overwrites an earlier one.\<close>

definition build_groupRoleMap :: "membership list \<Rightarrow> (string \<rightharpoonup> group_role)" where
  "build_groupRoleMap memberships =
     foldl (\<lambda>m g. m(m_groupId g \<mapsto> \<lparr>gr_name = m_roleName g, gr_rank = m_roleRank g\<rparr>))
       Map.empty memberships"

definition MAIN_GROUP_ID :: string where
  "MAIN_GROUP_ID = ''5692925''"

text \<open>The value written to \<^verbatim>\<open>/departments/{id}/members/{uid}\<close>.\<close>

record member_entry =
  me_joinedAt :: nat
  me_role :: "string option"
  me_rank :: "int option"

record dept_settings =
  requiredRole :: "int option"
  autoApprove :: bool

text \<open>
  A department node. \<open>requiredRole = None\<close> stands for a value that is absent or not a
  number; \<open>d_settings = None\<close> for a department without \<^verbatim>\<open>settings\<close>. The members
  node is an object keyed by user id.
\<close>

record department =
  d_isActive :: bool
  d_groupId :: string
  d_name :: "string option"
  d_settings :: "dept_settings option"
  d_members :: "string \<rightharpoonup> member_entry"

text \<open>
  A user node: the fields of \<^verbatim>\<open>/users/{uid}\<close> this handler reads or writes. An absent
  field is \<open>None\<close>; a user without a node has every field absent.
\<close>

record user_node =
  u_profile_role :: "string option"
  u_primaryDepartment :: "string option"
  u_updatedAt :: "nat option"

text \<open>
  The backing store. \<open>departments\<close> lists the children of \<^verbatim>\<open>/departments\<close> in the
  order of \<^verbatim>\<open>Object.entries\<close>; the keys of an object are distinct.
\<close>

record store =
  departments :: "(string \<times> department) list"
  users :: "string \<Rightarrow> user_node"

text \<open>JavaScript truthiness of a possibly absent string: absent and empty are falsy.\<close>

definition truthy :: "string option \<Rightarrow> bool" where
  "truthy v = (case v of None \<Rightarrow> False | Some s \<Rightarrow> s \<noteq> [])"

text \<open>
  The body of the per-department callback (lines 613-660) up to its two pushes: \<open>None\<close>
  for an inactive department, otherwise the result object and the member entry the callback
  writes, if it writes one.
\<close>

record dept_outcome =
  oc_result :: dept_result
  oc_write :: "member_entry option"

definition check_department ::
  "string \<Rightarrow> (string \<rightharpoonup> group_role) \<Rightarrow> bool \<Rightarrow> nat \<Rightarrow> string \<Rightarrow> department \<Rightarrow> dept_outcome option"
where
  "check_department uid groupRoleMap isMainGroupMember now ident dept =
     (if \<not> d_isActive dept then None
      else
        (let groupInfo = groupRoleMap (d_groupId dept);
             userRank = map_option gr_rank groupInfo;
             userRoleName = map_option gr_name groupInfo;
             requiredRank = (case d_settings dept of None \<Rightarrow> 0
                             | Some s \<Rightarrow> (case requiredRole s of None \<Rightarrow> 0 | Some r \<Rightarrow> r));
             isAlreadyMember = (d_members dept uid \<noteq> None);
             approve = (case d_settings dept of None \<Rightarrow> False | Some s \<Rightarrow> autoApprove s);
             res = (\<lambda>eligible status.
                      \<lparr>dr_id = ident,
                       dr_name = (case d_name dept of None \<Rightarrow> [] | Some n \<Rightarrow> n),
                       dr_role = userRoleName, dr_rank = userRank,
                       dr_eligible = eligible, dr_status = status\<rparr>)
         in if isAlreadyMember then
              Some \<lparr>oc_result = res True ''active'', oc_write = None\<rparr>
            else if isMainGroupMember \<and>
                    (case groupInfo of None \<Rightarrow> False | Some g \<Rightarrow> gr_rank g \<ge> requiredRank) then
              (if approve then
                 Some \<lparr>oc_result = res True ''active'',
                       oc_write = Some \<lparr>me_joinedAt = now, me_role = userRoleName,
                                        me_rank = userRank\<rparr>\<rparr>
               else Some \<lparr>oc_result = res True ''pending'', oc_write = None\<rparr>)
            else Some \<lparr>oc_result = res False ''ineligible'', oc_write = None\<rparr>))"

text \<open>
  \<^verbatim>\<open>ref(`/departments/${id}/members/${uid}`).set(entry)\<close>. The id is always a key of the
  snapshot the handler iterates over.
\<close>

definition add_member :: "string \<Rightarrow> member_entry \<Rightarrow> department \<Rightarrow> department" where
  "add_member uid e d = d\<lparr>d_members := (d_members d)(uid \<mapsto> e)\<rparr>"

definition set_member ::
  "string \<Rightarrow> string \<Rightarrow> member_entry \<Rightarrow> (string \<times> department) list \<Rightarrow> (string \<times> department) list"
where
  "set_member ident uid e ds =
     map (\<lambda>(k, d). if k = ident then (k, add_member uid e d) else (k, d)) ds"

fun apply_writes ::
  "string \<Rightarrow> dept_outcome list \<Rightarrow> (string \<times> department) list \<Rightarrow> (string \<times> department) list"
where
  "apply_writes uid [] ds = ds"
| "apply_writes uid (oc # ocs) ds =
     (case oc_write oc of
        None \<Rightarrow> apply_writes uid ocs ds
      | Some e \<Rightarrow> apply_writes uid ocs (set_member (dr_id (oc_result oc)) uid e ds))"

text \<open>
  \<^verbatim>\<open>FirebaseService.updateUser(uid, {"onboarding/primaryDepartment": v})\<close>: a partial
  update of the user node that also stamps \<^verbatim>\<open>activity/updatedAt\<close>.
\<close>

definition updateUser_primaryDepartment :: "string \<Rightarrow> string \<Rightarrow> nat \<Rightarrow> store \<Rightarrow> store" where
  "updateUser_primaryDepartment uid v now st =
     st\<lparr>users := (users st)(uid := (users st uid)\<lparr>u_primaryDepartment := Some v,
                                                     u_updatedAt := Some now\<rparr>)\<rparr>"

record eligible_response =
  mainGroup_groupMember :: bool
  mainGroup_role :: "string option"
  resp_departments :: "dept_result list"
  autoAddDepartments :: "string list"
  resp_primaryDepartment :: "string option"

text \<open>
  The handler of \<^verbatim>\<open>GET /api/onboarding/eligible\<close> (lines 577-729). \<open>st\<close> is the store
  the handler reads and writes. \<open>userData\<close> is \<^verbatim>\<open>req.userData\<close>, which the middleware
  \<^verbatim>\<open>authenticateToken\<close> (middleware/auth.js) attached before the handler started: on the
  token path the node it read from \<^verbatim>\<open>/users/{uid}\<close> at that moment, on the API-key path a
  literal with \<^verbatim>\<open>uid\<close>, \<^verbatim>\<open>permissions\<close>, \<^verbatim>\<open>profile\<close> and \<^verbatim>\<open>isApiKey\<close> and no
  \<^verbatim>\<open>onboarding\<close>. The handler never reads the user node again, so \<open>userData\<close> and the
  node in \<open>st\<close> are separate arguments. \<open>api\<close> is the answer of the group service:
  \<open>None\<close> when the request fails or times out (the handler then answers 500, before any
  write), otherwise \<^verbatim>\<open>resp.data.data || []\<close>. Store operations themselves succeed.
  \<open>now\<close> is \<^verbatim>\<open>Date.now()\<close>. The response is \<open>None\<close> for the 500 answer. The partner
  part of the response reads only and is left out.

  The callbacks of \<^verbatim>\<open>Promise.all\<close> run in entry order up to their first \<^verbatim>\<open>await\<close>.
  A callback that writes a member entry suspends at the write and performs its two pushes
  after the write resolves, so its result follows the results of all callbacks that do
  not write; writes resolve in the order they were issued.
\<close>

definition eligible_handler ::
  "store \<Rightarrow> nat \<Rightarrow> membership list option \<Rightarrow> string \<Rightarrow> user_node \<Rightarrow> store \<times> eligible_response option"
where
  "eligible_handler st now api uid userData =
     (case api of
        None \<Rightarrow> (st, None)
      | Some memberships \<Rightarrow>
          (let groupRoleMap = build_groupRoleMap memberships;
               mainGroupInfo = groupRoleMap MAIN_GROUP_ID;
               isMainGroupMember = (mainGroupInfo \<noteq> None);
               mainGroupRole = map_option gr_name mainGroupInfo;
               st1 = st\<lparr>users := (users st)(uid := (users st uid)\<lparr>u_profile_role := mainGroupRole\<rparr>)\<rparr>;
               outcomes = List.map_filter
                  (\<lambda>(ident, dept). check_department uid groupRoleMap isMainGroupMember now ident dept)
                  (departments st1);
               immediate = filter (\<lambda>oc. oc_write oc = None) outcomes;
               awaited = filter (\<lambda>oc. oc_write oc \<noteq> None) outcomes;
               deptResults = map oc_result immediate @ map oc_result awaited;
               autoAdd = map (\<lambda>oc. dr_id (oc_result oc)) awaited;
               st2 = st1\<lparr>departments := apply_writes uid awaited (departments st1)\<rparr>;
               stored = u_primaryDepartment userData;
               respond = (\<lambda>primaryDepartment.
                  \<lparr>mainGroup_groupMember = isMainGroupMember, mainGroup_role = mainGroupRole,
                   resp_departments = deptResults, autoAddDepartments = autoAdd,
                   resp_primaryDepartment =
                     (if truthy primaryDepartment then primaryDepartment else None)\<rparr>)
           in if \<not> truthy stored \<and> deptResults \<noteq> [] then
                (case getHighestPriorityDepartment deptResults of
                   None \<Rightarrow> (st2, Some (respond stored))
                 | Some autoSelectedPrimary \<Rightarrow>
                     if autoSelectedPrimary \<noteq> [] then
                       (updateUser_primaryDepartment uid autoSelectedPrimary now st2,
                        Some (respond (Some autoSelectedPrimary)))
                     else (st2, Some (respond stored)))
              else (st2, Some (respond stored))))"

text \<open>What the request leaves in the store for one department and one user.\<close>

definition members_of :: "store \<Rightarrow> string \<Rightarrow> (string \<rightharpoonup> member_entry)" where
  "members_of st ident = (case map_of (departments st) ident of None \<Rightarrow> Map.empty | Some d \<Rightarrow> d_members d)"

text \<open>
  When the user is newly eligible for a department (lines 627-630): not yet a member, a
  member of the main group, and in the backing group with a rank at or above the required
  one. \<open>required_rank\<close> is the handler's \<^verbatim>\<open>requiredRank\<close>, \<open>auto_approves\<close> its test
  \<^verbatim>\<open>dept.settings?.autoApprove\<close>.
\<close>

definition required_rank :: "department \<Rightarrow> int" where
  "required_rank dept =
     (case d_settings dept of None \<Rightarrow> 0
      | Some s \<Rightarrow> (case requiredRole s of None \<Rightarrow> 0 | Some r \<Rightarrow> r))"

definition auto_approves :: "department \<Rightarrow> bool" where
  "auto_approves dept = (case d_settings dept of None \<Rightarrow> False | Some s \<Rightarrow> autoApprove s)"

definition newly_eligible :: "membership list \<Rightarrow> string \<Rightarrow> department \<Rightarrow> bool" where
  "newly_eligible memberships uid dept =
     (d_members dept uid = None \<and>
      build_groupRoleMap memberships MAIN_GROUP_ID \<noteq> None \<and>
      (case build_groupRoleMap memberships (d_groupId dept) of
         None \<Rightarrow> False | Some g \<Rightarrow> gr_rank g \<ge> required_rank dept))"

section \<open>Resource eligibility (class \<^verbatim>\<open>FirebaseService\<close>)\<close>

text \<open>
  The user record as the eligibility checks read it: \<^verbatim>\<open>permissions.level\<close>,
  \<^verbatim>\<open>permissions.department\<close>, \<^verbatim>\<open>permissions.role\<close> and \<^verbatim>\<open>activity.createdAt\<close>
  (milliseconds). An absent field is \<open>None\<close>; a comparison with an absent number is false
  in JavaScript, and \<^verbatim>\<open>includes\<close> of an absent string is false.
\<close>

record user_record =
  perm_level :: "int option"
  perm_department :: "string option"
  perm_role :: "string option"
  activity_createdAt :: "int option"

record EligibilityResult =
  eligible :: bool
  reason :: "string option"

text \<open>
  What a call can throw: \<^verbatim>\<open>new Error(message)\<close> of the code itself; the \<^verbatim>\<open>TypeError\<close>
  of the language (calling what is no function, spreading what is not iterable); the error
  of the database client when a query is built with two \<^verbatim>\<open>orderByChild\<close> calls; and a
  write that the store rejects.
\<close>

datatype js_error =
    Error string
  | TypeError
  | QueryError
  | WriteRejected

text \<open>Decimal rendering of a number inside a template string.\<close>

fun digits :: "nat \<Rightarrow> string" where
  "digits n =
     (if n < 10 then [char_of (48 + n)] else digits (n div 10) @ [char_of (48 + n mod 10)])"

definition show_int :: "int \<Rightarrow> string" where
  "show_int i = (if i < 0 then CHR ''-'' # digits (nat (- i)) else digits (nat i))"

subsection \<open>Forms\<close>

record form_requirements =
  minLevel :: "int option"
  minDaysActive :: "int option"
  requiredDepartments :: "string list option"
  blacklistedRoles :: "string list option"

text \<open>A form template; \<open>f_requirements = None\<close> makes the code use \<^verbatim>\<open>{}\<close>.\<close>

record form_template =
  f_requirements :: "form_requirements option"

record submission =
  sub_userId :: string
  sub_formId :: string
  sub_status :: string

record forms_store =
  templates :: "string \<rightharpoonup> form_template"
  form_users :: "string \<rightharpoonup> user_record"
  submissions :: "submission list"

text \<open>
  The query on \<^verbatim>\<open>/forms/submissions\<close> (lines 462-465):
  \<^verbatim>\<open>.orderByChild('userId').equalTo(userId).orderByChild('formId').equalTo(formId)\<close>. The
  Realtime Database client accepts one ordering per query: the second \<^verbatim>\<open>orderByChild\<close>
  throws while the query is built, before anything is read, whatever the store holds.
\<close>

definition existingSubmission :: "forms_store \<Rightarrow> string \<Rightarrow> string \<Rightarrow> js_error + submission list" where
  "existingSubmission st formId userId = Inl QueryError"

definition no_requirements :: form_requirements where
  "no_requirements = \<lparr>minLevel = None, minDaysActive = None,
                       requiredDepartments = None, blacklistedRoles = None\<rparr>"

text \<open>The four requirement tests of \<^verbatim>\<open>checkFormEligibility\<close>, each true when it rejects.\<close>

definition fails_minLevel :: "form_requirements \<Rightarrow> user_record \<Rightarrow> bool" where
  "fails_minLevel requirements user =
     (case minLevel requirements of None \<Rightarrow> False
      | Some m \<Rightarrow> m \<noteq> 0 \<and> (case perm_level user of None \<Rightarrow> False | Some l \<Rightarrow> l < m))"

definition fails_minDaysActive :: "form_requirements \<Rightarrow> user_record \<Rightarrow> int \<Rightarrow> bool" where
  "fails_minDaysActive requirements user now =
     (case minDaysActive requirements of None \<Rightarrow> False
      | Some m \<Rightarrow> m \<noteq> 0 \<and>
          (case activity_createdAt user of None \<Rightarrow> False
           | Some c \<Rightarrow> (rat_of_int (now - c) / (1000 * 60 * 60 * 24) < rat_of_int m)))"

definition includes_opt :: "string list \<Rightarrow> string option \<Rightarrow> bool" where
  "includes_opt xs v = (case v of None \<Rightarrow> False | Some s \<Rightarrow> s \<in> set xs)"

definition fails_requiredDepartments :: "form_requirements \<Rightarrow> user_record \<Rightarrow> bool" where
  "fails_requiredDepartments requirements user =
     (case requiredDepartments requirements of None \<Rightarrow> False
      | Some ds \<Rightarrow> \<not> includes_opt ds (perm_department user))"

definition fails_blacklistedRoles :: "form_requirements \<Rightarrow> user_record \<Rightarrow> bool" where
  "fails_blacklistedRoles requirements user =
     (case blacklistedRoles requirements of None \<Rightarrow> False
      | Some rs \<Rightarrow> includes_opt rs (perm_role user))"

text \<open>
  \<^verbatim>\<open>FirebaseService.checkFormEligibility\<close> (lines 428-476). \<open>Inr\<close> is the returned
  object, \<open>Inl\<close> the error the call throws. The guard on the submissions follows the
  query and runs on what the query returns.
\<close>

definition checkFormEligibility ::
  "forms_store \<Rightarrow> int \<Rightarrow> string \<Rightarrow> string \<Rightarrow> js_error + EligibilityResult"
where
  "checkFormEligibility st now formId userId =
     (case (templates st formId, form_users st userId) of
        (Some form, Some user) \<Rightarrow>
          (let requirements = (case f_requirements form of None \<Rightarrow> no_requirements | Some r \<Rightarrow> r)
           in if fails_minLevel requirements user then
                Inr \<lparr>eligible = False,
                     reason = Some (''Minimum level '' @
                       show_int (case minLevel requirements of None \<Rightarrow> 0 | Some m \<Rightarrow> m) @
                       '' required'')\<rparr>
              else if fails_minDaysActive requirements user now then
                Inr \<lparr>eligible = False,
                     reason = Some (''Must be active for '' @
                       show_int (case minDaysActive requirements of None \<Rightarrow> 0 | Some m \<Rightarrow> m) @
                       '' days'')\<rparr>
              else if fails_requiredDepartments requirements user then
                Inr \<lparr>eligible = False, reason = Some ''Department requirement not met''\<rparr>
              else if fails_blacklistedRoles requirements user then
                Inr \<lparr>eligible = False, reason = Some ''Role restriction applies''\<rparr>
              else
                (case existingSubmission st formId userId of
                   Inl err \<Rightarrow> Inl err
                 | Inr found \<Rightarrow>
                     if found \<noteq> [] \<and>
                        list_ex (\<lambda>sub. sub_status sub = ''pending'' \<or> sub_status sub = ''approved'')
                          found then
                       Inr \<lparr>eligible = False, reason = Some ''Already submitted or approved''\<rparr>
                     else Inr \<lparr>eligible = True, reason = None\<rparr>))
      | _ \<Rightarrow> Inr \<lparr>eligible = False, reason = Some ''Form or user not found''\<rparr>)"

subsection \<open>Sessions\<close>

record capacity =
  cap_min :: int
  cap_max :: int
  cap_current :: int

record session_requirements =
  sr_minLevel :: "int option"
  sr_departments :: "string list option"

record attendee =
  att_userId :: string
  att_status :: string
  att_registeredAt :: int

text \<open>
  The value read at \<^verbatim>\<open>attendees\<close>. The store keeps no empty array, so a session
  without attendees has none (\<^verbatim>\<open>undefined\<close>). Children under keys 0, 1, 2, ... are read
  as an array; children under any other keys, such as the keys \<^verbatim>\<open>push\<close> creates, are
  read as an object.
\<close>

datatype attendees =
    NoAttendees
  | AttendeeArray "attendee list"
  | AttendeeObject "(string \<times> attendee) list"

record session =
  ses_capacity :: capacity
  ses_requirements :: "session_requirements option"
  ses_attendees :: attendees

record sessions_store =
  sessions :: "string \<rightharpoonup> session"
  session_users :: "string \<rightharpoonup> user_record"

text \<open>
  \<^verbatim>\<open>session.attendees?.some(attendee => attendee.userId === userId)\<close>: \<^verbatim>\<open>undefined\<close>
  without attendees, the test on an array, and a \<^verbatim>\<open>TypeError\<close> on an object, which has
  no \<^verbatim>\<open>some\<close>.
\<close>

definition alreadyRegistered :: "attendees \<Rightarrow> string \<Rightarrow> js_error + bool" where
  "alreadyRegistered atts userId =
     (case atts of
        NoAttendees \<Rightarrow> Inr False
      | AttendeeArray xs \<Rightarrow> Inr (list_ex (\<lambda>a. att_userId a = userId) xs)
      | AttendeeObject kvs \<Rightarrow> Inl TypeError)"

text \<open>\<^verbatim>\<open>FirebaseService.checkSessionEligibility\<close> (lines 916-938).\<close>

definition checkSessionEligibility ::
  "sessions_store \<Rightarrow> session \<Rightarrow> string \<Rightarrow> js_error + EligibilityResult"
where
  "checkSessionEligibility st ses userId =
     (case session_users st userId of
        None \<Rightarrow> Inr \<lparr>eligible = False, reason = Some ''User not found''\<rparr>
      | Some user \<Rightarrow>
          (let reqMinLevel = (case ses_requirements ses of None \<Rightarrow> None | Some r \<Rightarrow> sr_minLevel r);
               reqDepartments = (case ses_requirements ses of None \<Rightarrow> None | Some r \<Rightarrow> sr_departments r)
           in if (case reqMinLevel of None \<Rightarrow> False
                  | Some m \<Rightarrow> m \<noteq> 0 \<and> (case perm_level user of None \<Rightarrow> False | Some l \<Rightarrow> l < m)) then
                Inr \<lparr>eligible = False,
                     reason = Some (''Minimum level '' @
                       show_int (case reqMinLevel of None \<Rightarrow> 0 | Some m \<Rightarrow> m) @ '' required'')\<rparr>
              else if (case reqDepartments of None \<Rightarrow> False
                       | Some ds \<Rightarrow> \<not> includes_opt ds (perm_department user)) then
                Inr \<lparr>eligible = False, reason = Some ''Department requirement not met''\<rparr>
              else
                (case alreadyRegistered (ses_attendees ses) userId of
                   Inl err \<Rightarrow> Inl err
                 | Inr registered \<Rightarrow>
                     if registered then
                       Inr \<lparr>eligible = False, reason = Some ''Already registered for this session''\<rparr>
                     else Inr \<lparr>eligible = True, reason = None\<rparr>)))"

text \<open>
  What the store answers to the two writes of a registration: the key under which the
  push stored the attendee, or \<open>None\<close> when the promise of the push rejects (the store
  refuses the write, or the connection fails); and whether the transaction on
  \<^verbatim>\<open>capacity/current\<close> succeeded or its promise rejects likewise. A rejected promise
  is thrown by the \<^verbatim>\<open>await\<close>.
\<close>

record write_outcomes =
  push_key :: "string option"
  transaction_succeeded :: bool

text \<open>
  \<^verbatim>\<open>ref(".../attendees").push(attendeeData)\<close>: a new child under a fresh key. An array
  with one more child under such a key is read back as an object.
\<close>

definition push_attendee :: "string \<Rightarrow> attendee \<Rightarrow> attendees \<Rightarrow> attendees" where
  "push_attendee key a atts =
     (case atts of
        NoAttendees \<Rightarrow> AttendeeObject [(key, a)]
      | AttendeeArray xs \<Rightarrow>
          AttendeeObject (zip (map (\<lambda>i. show_int (int i)) [0..<length xs]) xs @ [(key, a)])
      | AttendeeObject kvs \<Rightarrow> AttendeeObject (kvs @ [(key, a)]))"

text \<open>
  \<^verbatim>\<open>FirebaseService.registerForSession\<close> (lines 887-914). A thrown error is \<open>Inl\<close>, the
  returned \<^verbatim>\<open>true\<close> is \<open>Inr True\<close>; the store after the call is the first component.
  The push of the attendee (line 910) and the transaction on the counter (line 911) are
  two writes, awaited one after the other; nothing undoes the first when the second is
  rejected. Reads succeed.
\<close>

definition registerForSession ::
  "write_outcomes \<Rightarrow> sessions_store \<Rightarrow> int \<Rightarrow> string \<Rightarrow> string
     \<Rightarrow> sessions_store \<times> (js_error + bool)"
where
  "registerForSession io st now sessionId userId =
     (case sessions st sessionId of
        None \<Rightarrow> (st, Inl (Error ''Session not found''))
      | Some ses \<Rightarrow>
          if cap_current (ses_capacity ses) \<ge> cap_max (ses_capacity ses) then
            (st, Inl (Error ''Session is full''))
          else
            (case checkSessionEligibility st ses userId of
               Inl err \<Rightarrow> (st, Inl err)
             | Inr userEligible \<Rightarrow>
                 if \<not> eligible userEligible then
                   (st, Inl (Error (case reason userEligible of None \<Rightarrow> [] | Some r \<Rightarrow> r)))
                 else
                   (let attendeeData = \<lparr>att_userId = userId, att_status = ''confirmed'',
                                        att_registeredAt = now\<rparr>
                    in case push_key io of
                         None \<Rightarrow> (st, Inl WriteRejected)
                       | Some key \<Rightarrow>
                           (let pushed = ses\<lparr>ses_attendees :=
                                             push_attendee key attendeeData (ses_attendees ses)\<rparr>;
                                st1 = st\<lparr>sessions := (sessions st)(sessionId \<mapsto> pushed)\<rparr>
                            in if \<not> transaction_succeeded io then (st1, Inl WriteRejected)
                               else
                                 (let counted = pushed\<lparr>ses_capacity := (ses_capacity pushed)
                                        \<lparr>cap_current := cap_current (ses_capacity pushed) + 1\<rparr>\<rparr>
                                  in (st\<lparr>sessions := (sessions st)(sessionId \<mapsto> counted)\<rparr>,
                                      Inr True))))))"

section \<open>Assignment status (the \<^verbatim>\<open>PATCH /:assignmentId/status\<close> handler)\<close>

record assignment =
  asg_assignedTo :: string
  asg_status :: string
  asg_updatedAt :: "int option"
  asg_completedAt :: "int option"
  asg_completedBy :: "string option"

text \<open>
  \<^verbatim>\<open>validTransitions\<close> (lines 1107-1113). A lookup finds the keys of this literal; a
  status that is no key has no entry and the request is rejected. (For a stored status
  naming an inherited member, such as \<^verbatim>\<open>constructor\<close>, the handler throws instead, which
  also leaves the store unchanged; such statuses are outside this model.)
\<close>

definition validTransitions :: "(string \<times> string list) list" where
  "validTransitions =
     [(''pending'', [''in_progress'']),
      (''in_progress'', [''under_review'', ''pending'']),
      (''under_review'', [''completed'', ''in_progress'']),
      (''completed'', [])]"

datatype status_response =
    NotFound404
  | Forbidden403 string
  | BadRequest400
  | Updated200 string string

text \<open>
  The handler (lines 1076-1160). \<open>level\<close> is \<^verbatim>\<open>req.userData?.permissions?.level\<close>,
  absent as \<open>None\<close>; \<open>now\<close> is \<^verbatim>\<open>Date.now()\<close>. The answer \<open>Updated200 old new\<close>
  carries \<^verbatim>\<open>oldStatus\<close> and \<^verbatim>\<open>newStatus\<close>.
\<close>

definition update_assignment_status ::
  "(string \<rightharpoonup> assignment) \<Rightarrow> int \<Rightarrow> string \<Rightarrow> string \<Rightarrow> string \<Rightarrow> int option
     \<Rightarrow> (string \<rightharpoonup> assignment) \<times> status_response"
where
  "update_assignment_status tasks now assignmentId status userId level =
     (let userPermissionLevel = (case level of None \<Rightarrow> 0 | Some l \<Rightarrow> l)
      in case tasks assignmentId of
           None \<Rightarrow> (tasks, NotFound404)
         | Some asg \<Rightarrow>
             (let isAssignedUser = (asg_assignedTo asg = userId);
                  isManager = (userPermissionLevel \<ge> 5)
              in if \<not> isAssignedUser \<and> \<not> isManager then
                   (tasks, Forbidden403 ''Not authorized to update this assignment'')
                 else if \<not> isManager \<and> isAssignedUser \<and>
                         asg_status asg = ''under_review'' \<and> status \<noteq> ''in_progress'' then
                   (tasks, Forbidden403 ''Only managers can approve assignments'')
                 else if \<not> (case map_of validTransitions (asg_status asg) of
                               None \<Rightarrow> False | Some allowed \<Rightarrow> status \<in> set allowed) then
                   (tasks, BadRequest400)
                 else
                   (let updated = asg\<lparr>asg_status := status, asg_updatedAt := Some (now div 1000)\<rparr>;
                        updated' = (if status = ''completed''
                                    then updated\<lparr>asg_completedAt := Some (now div 1000),
                                                 asg_completedBy := Some userId\<rparr>
                                    else updated)
                    in (tasks(assignmentId \<mapsto> updated'), Updated200 (asg_status asg) status))))"

section \<open>App access matrix (the applications router)\<close>

definition PERMISSION_LEVEL_BASIC :: int where "PERMISSION_LEVEL_BASIC = 1"
definition PERMISSION_LEVEL_CORPORATE :: int where "PERMISSION_LEVEL_CORPORATE = 5"
definition PERMISSION_LEVEL_DEVELOPER :: int where "PERMISSION_LEVEL_DEVELOPER = 10"

definition DEPARTMENT_CORPORATE :: string where "DEPARTMENT_CORPORATE = ''corporate''"

text \<open>
  \<^verbatim>\<open>APP_ACCESS_MATRIX\<close> (lines 43-59), its categories in the order of the literal, which
  is the order of \<^verbatim>\<open>Object.values\<close>.
\<close>

definition APP_ACCESS_MATRIX :: "(string \<times> string list) list" where
  "APP_ACCESS_MATRIX =
     [(''universal'', [''maia'', ''forms'', ''bake'', ''dof'', ''community'', ''sessions'']),
      (''corporate'', [''oam-corporate'', ''uvm-corporate'', ''pvm-corporate'',
                       ''courses-corporate'', ''forms-manager'', ''assignments-manager'']),
      (''moderation'', [''oam-basic'', ''uvm-basic'', ''courses-moderation'', ''bake-mod'',
                        ''assignments'']),
      (''public-relations'', [''partners'', ''pvm-basic'', ''bake-partners'', ''courses-pr'',
                              ''assignments'']),
      (''talent-acquisition'', [''uvm-basic'', ''myhr-manager'', ''courses-ta'', ''bake-hr'',
                                ''assignments'']),
      (''hr'', [''myhr-basic'', ''performance'', ''courses-hr'', ''bake'', ''sessions-manager'',
                ''forms-manager'', ''employee-directory'', ''assignments-manager'']),
      (''mr'', [''myhr-basic'', ''performance'', ''courses-mr'', ''bake'',
                ''sessions-manager-basic'', ''employee-directory'', ''assignments'']),
      (''lr'', [''myhr-basic'', ''performance'', ''courses-mr'', ''bake'', ''sessions''])]"

text \<open>
  The members every object literal inherits from \<^verbatim>\<open>Object.prototype\<close>. Each is a function
  or, for \<^verbatim>\<open>__proto__\<close>, the prototype object: truthy and not iterable.
\<close>

definition Object_prototype_members :: "string list" where
  "Object_prototype_members =
     [''constructor'', ''__defineGetter__'', ''__defineSetter__'', ''hasOwnProperty'',
      ''__lookupGetter__'', ''__lookupSetter__'', ''isPrototypeOf'', ''propertyIsEnumerable'',
      ''toString'', ''valueOf'', ''__proto__'', ''toLocaleString'']"

text \<open>
  \<^verbatim>\<open>APP_ACCESS_MATRIX[name]\<close>: the list of an own key, an inherited member, or
  \<^verbatim>\<open>undefined\<close>.
\<close>

datatype matrix_entry =
    OwnList "string list"
  | InheritedMember
  | NoEntry

definition matrix_lookup :: "string \<Rightarrow> matrix_entry" where
  "matrix_lookup name =
     (case map_of APP_ACCESS_MATRIX name of
        Some apps \<Rightarrow> OwnList apps
      | None \<Rightarrow> if name \<in> set Object_prototype_members then InheritedMember else NoEntry)"

definition universal_apps :: "string list" where
  "universal_apps = (case map_of APP_ACCESS_MATRIX ''universal'' of None \<Rightarrow> [] | Some apps \<Rightarrow> apps)"

text \<open>
  The user data as \<^verbatim>\<open>getUserDepartmentGroup\<close> and \<^verbatim>\<open>getUserAccessibleApps\<close> read it:
  \<^verbatim>\<open>onboarding.primaryDepartment\<close>, \<^verbatim>\<open>department\<close>, \<^verbatim>\<open>permissions.department\<close> and
  \<^verbatim>\<open>permissions.level\<close>. \<open>None\<close> for the whole record is a \<^verbatim>\<open>null\<close> user.
\<close>

record app_userData =
  ud_primaryDepartment :: "string option"
  ud_department :: "string option"
  ud_permissions_department :: "string option"
  ud_permissions_level :: "int option"

text \<open>\<^verbatim>\<open>a || b\<close> on possibly absent strings.\<close>

definition js_or :: "string option \<Rightarrow> string option \<Rightarrow> string option" where
  "js_or a b = (if truthy a then a else b)"

definition getUserDepartmentGroup :: "app_userData option \<Rightarrow> string" where
  "getUserDepartmentGroup userData =
     (let primaryDepartment = (case userData of None \<Rightarrow> None | Some u \<Rightarrow> ud_primaryDepartment u);
          department = (case userData of None \<Rightarrow> None
                        | Some u \<Rightarrow> js_or (ud_department u) (ud_permissions_department u))
      in case js_or (js_or primaryDepartment department) (Some ''basic'') of
           Some d \<Rightarrow> d
         | None \<Rightarrow> ''basic'')"

text \<open>\<^verbatim>\<open>userData?.permissions?.level || PERMISSION_LEVELS.BASIC\<close>: absent and 0 give 1.\<close>

definition userLevel_of :: "app_userData option \<Rightarrow> int" where
  "userLevel_of userData =
     (case userData of None \<Rightarrow> PERMISSION_LEVEL_BASIC
      | Some u \<Rightarrow> (case ud_permissions_level u of None \<Rightarrow> PERMISSION_LEVEL_BASIC
                   | Some l \<Rightarrow> if l = 0 then PERMISSION_LEVEL_BASIC else l))"

text \<open>
  \<^verbatim>\<open>[...new Set(xs)]\<close>: a \<^verbatim>\<open>Set\<close> keeps each value once, in the order of first
  insertion.
\<close>

definition set_add :: "'a list \<Rightarrow> 'a \<Rightarrow> 'a list" where
  "set_add seen x = (if x \<in> set seen then seen else seen @ [x])"

definition dedupe :: "'a list \<Rightarrow> 'a list" where
  "dedupe xs = foldl set_add [] xs"

text \<open>\<^verbatim>\<open>Object.values(APP_ACCESS_MATRIX).flat()\<close>.\<close>

definition allApps :: "string list" where
  "allApps = concat (map snd APP_ACCESS_MATRIX)"

text \<open>
  \<^verbatim>\<open>getUserAccessibleApps\<close> (lines 111-142). The test \<^verbatim>\<open>if (APP_ACCESS_MATRIX[userDepartment])\<close>
  passes for an own key and for an inherited member alike; spreading an inherited member
  into the array throws a \<^verbatim>\<open>TypeError\<close>. \<open>Inl\<close> is the thrown error, \<open>Inr\<close> the
  returned array.
\<close>

definition getUserAccessibleApps :: "app_userData option \<Rightarrow> js_error + string list" where
  "getUserAccessibleApps userData =
     (let userDepartment = getUserDepartmentGroup userData;
          userLevel = userLevel_of userData;
          accessibleApps = universal_apps
      in if userLevel \<ge> PERMISSION_LEVEL_DEVELOPER then Inr (dedupe allApps)
         else if userDepartment = DEPARTMENT_CORPORATE \<or> userLevel \<ge> PERMISSION_LEVEL_CORPORATE
         then Inr (dedupe allApps)
         else (case matrix_lookup userDepartment of
                 OwnList apps \<Rightarrow> Inr (dedupe (accessibleApps @ apps))
               | InheritedMember \<Rightarrow> Inl TypeError
               | NoEntry \<Rightarrow> Inr (dedupe accessibleApps)))"

section \<open>Automated submission scorer (class \<^verbatim>\<open>FirebaseService\<close>)\<close>

text \<open>
  JSON values as the scorer sees them: a response comes from the request body and a
  question from the store. Numbers are integers here.
\<close>

datatype js =
    JUndefined
  | JNull
  | JBool bool
  | JNum int
  | JStr string
  | JArr "js list"
  | JObj "(string \<times> js) list"

text \<open>\<^verbatim>\<open>!v\<close> is true on the falsy values.\<close>

fun falsy :: "js \<Rightarrow> bool" where
  "falsy JUndefined = True"
| "falsy JNull = True"
| "falsy (JBool b) = (\<not> b)"
| "falsy (JNum n) = (n = 0)"
| "falsy (JStr s) = (s = [])"
| "falsy (JArr _) = False"
| "falsy (JObj _) = False"

text \<open>
  Reading the property \<^verbatim>\<open>answers\<close> of a truthy value: an object has it when it is a
  key; a primitive or an array has none.
\<close>

fun get_prop :: "js \<Rightarrow> string \<Rightarrow> js" where
  "get_prop (JObj kvs) k = (case map_of kvs k of None \<Rightarrow> JUndefined | Some v \<Rightarrow> v)"
| "get_prop _ k = JUndefined"

text \<open>\<^verbatim>\<open>xs[index]\<close>: \<^verbatim>\<open>undefined\<close> past the end.\<close>

definition at_index :: "js list \<Rightarrow> nat \<Rightarrow> js" where
  "at_index xs i = (if i < length xs then xs ! i else JUndefined)"

text \<open>
  \<^verbatim>\<open>===\<close>: primitives compare by value; an array or object of the response is never the
  same object as one of the question.
\<close>

fun strict_equals :: "js \<Rightarrow> js \<Rightarrow> bool" where
  "strict_equals (JArr _) _ = False"
| "strict_equals (JObj _) _ = False"
| "strict_equals a b = (a = b)"

text \<open>A JavaScript number that is an integer or \<^verbatim>\<open>NaN\<close>.\<close>

datatype js_number = Num int | NaN

text \<open>
  JavaScript numbers are IEEE 754 binary64 values: the result of \<^verbatim>\<open>/\<close> and of \<^verbatim>\<open>*\<close>
  is the exact result rounded to the nearest value with a 53-bit significand, ties to the
  even significand. A finite number is kept as the rational it denotes. For a positive
  \<open>x\<close>, \<open>binade x\<close> is the exponent \<open>e\<close> with \<open>2 powi e \<le> x < 2 powi (e + 1)\<close>, so the
  representable values around \<open>x\<close> are the multiples of \<open>2 powi (e - 52)\<close>. Counts of
  answers and questions are integers below \<open>2 ^ 53\<close>, which are numbers exactly; their
  quotient, and a hundred times it, neither overflow nor reach the subnormal range.
\<close>

fun bit_length :: "nat \<Rightarrow> nat" where
  "bit_length n = (if n = 0 then 0 else Suc (bit_length (n div 2)))"

definition binade :: "rat \<Rightarrow> int" where
  "binade x =
     (if x \<ge> 1 then int (bit_length (nat \<lfloor>x\<rfloor>)) - 1
      else - int (bit_length (nat (\<lceil>1 / x\<rceil> - 1))))"

definition round_half_even :: "rat \<Rightarrow> int" where
  "round_half_even y =
     (let f = \<lfloor>y\<rfloor>; d = y - rat_of_int f
      in if d < 1 / 2 then f else if d > 1 / 2 then f + 1 else if even f then f else f + 1)"

definition round_positive :: "rat \<Rightarrow> rat" where
  "round_positive x =
     (let k = binade x - 52
      in rat_of_int (round_half_even (x / 2 powi k)) * 2 powi k)"

definition round_double :: "rat \<Rightarrow> rat" where
  "round_double x =
     (if x = 0 then 0 else if x > 0 then round_positive x else - round_positive (- x))"

text \<open>The operators \<^verbatim>\<open>/\<close> and \<^verbatim>\<open>*\<close> on finite numbers, the divisor not zero.\<close>

definition js_divide :: "rat \<Rightarrow> rat \<Rightarrow> rat" where
  "js_divide a b = round_double (a / b)"

definition js_times :: "rat \<Rightarrow> rat \<Rightarrow> rat" where
  "js_times a b = round_double (a * b)"

text \<open>
  \<^verbatim>\<open>Math.round\<close> of a finite number: the nearest integer, halves upwards.
\<close>

definition Math_round :: "rat \<Rightarrow> int" where
  "Math_round x = \<lfloor>x + 1 / 2\<rfloor>"

record quiz_question =
  q_correct :: js

record quiz_field =
  questions :: "quiz_question list"

text \<open>The body of the \<^verbatim>\<open>forEach\<close>: the questions answered correctly, index by index.\<close>

fun count_correct :: "js list \<Rightarrow> nat \<Rightarrow> quiz_question list \<Rightarrow> nat" where
  "count_correct answers index [] = 0"
| "count_correct answers index (question # rest) =
     (if strict_equals (at_index answers index) (q_correct question) then 1 else 0)
       + count_correct answers (index + 1) rest"

text \<open>
  \<^verbatim>\<open>FirebaseService.evaluateQuizResponse\<close> (lines 595-610). With no questions the
  quotient is \<^verbatim>\<open>0 / 0\<close>, which is \<^verbatim>\<open>NaN\<close>, and so is its rounding.
\<close>

definition evaluateQuizResponse :: "js \<Rightarrow> quiz_field \<Rightarrow> js_number" where
  "evaluateQuizResponse response field =
     (if falsy response \<or> falsy (get_prop response ''answers'') then Num 0
      else case get_prop response ''answers'' of
             JArr answers \<Rightarrow>
               (let correctAnswers = count_correct answers 0 (questions field);
                    totalQuestions = length (questions field)
                in if totalQuestions = 0 then NaN
                   else Num (Math_round
                     (js_times (js_divide (rat_of_nat correctAnswers) (rat_of_nat totalQuestions))
                        100)))
           | _ \<Rightarrow> Num 0)"

text \<open>
  The thresholds of a form, \<^verbatim>\<open>form.autoEvaluation?.thresholds\<close>; an absent field is
  \<open>None\<close>, and a comparison with it is false. \<^verbatim>\<open>manualReview\<close> is never read.
\<close>

record thresholds =
  th_autoApprove :: "int option"
  th_autoReject :: "int option"
  th_manualReview :: "int option"

definition default_thresholds :: thresholds where
  "default_thresholds = \<lparr>th_autoApprove = Some 85, th_autoReject = Some 40, th_manualReview = Some 60\<rparr>"

text \<open>Comparisons of the overall score with a threshold; false on \<^verbatim>\<open>NaN\<close>.\<close>

definition score_ge :: "js_number \<Rightarrow> int option \<Rightarrow> bool" where
  "score_ge score t = (case (score, t) of (Num n, Some k) \<Rightarrow> n \<ge> k | _ \<Rightarrow> False)"

definition score_le :: "js_number \<Rightarrow> int option \<Rightarrow> bool" where
  "score_le score t = (case (score, t) of (Num n, Some k) \<Rightarrow> n \<le> k | _ \<Rightarrow> False)"

text \<open>
  The recommendation step of \<^verbatim>\<open>FirebaseService.evaluateFormSubmission\<close> (lines 546-558):
  from the form's thresholds, if any, and the overall score of line 544.
\<close>

definition recommendation :: "thresholds option \<Rightarrow> js_number \<Rightarrow> string" where
  "recommendation formThresholds overallScore =
     (let th = (case formThresholds of None \<Rightarrow> default_thresholds | Some t \<Rightarrow> t)
      in if score_ge overallScore (th_autoApprove th) then ''approve''
         else if score_le overallScore (th_autoReject th) then ''reject''
         else ''review'')"

section \<open>Auxiliary notions for the proofs\<close>

text \<open>
  The outcomes of the per-department callbacks of one request, in entry order: the list
  \<open>outcomes\<close> inside \<open>eligible_handler\<close>.
\<close>

definition dept_outcomes :: "string \<Rightarrow> membership list \<Rightarrow> nat \<Rightarrow> (string \<times> department) list \<Rightarrow> dept_outcome list" where
  "dept_outcomes uid memberships now ds =
     List.map_filter
       (\<lambda>(ident, dept). check_department uid (build_groupRoleMap memberships)
           (build_groupRoleMap memberships MAIN_GROUP_ID \<noteq> None) now ident dept) ds"

text \<open>The transitions named by the workflow, as pairs of old and new status.\<close>

definition permitted_transitions :: "(string \<times> string) set" where
  "permitted_transitions =
     {(''pending'', ''in_progress''), (''in_progress'', ''under_review''),
      (''in_progress'', ''pending''), (''under_review'', ''completed''),
      (''under_review'', ''in_progress'')}"

text \<open>
  The requirements a form is checked against, and the conjunction of the four requirement
  tests of \<^verbatim>\<open>checkFormEligibility\<close>.
\<close>

definition requirements_of :: "form_template \<Rightarrow> form_requirements" where
  "requirements_of form = (case f_requirements form of None \<Rightarrow> no_requirements | Some r \<Rightarrow> r)"

definition requirements_pass :: "form_template \<Rightarrow> user_record \<Rightarrow> int \<Rightarrow> bool" where
  "requirements_pass form user now =
     (\<not> fails_minLevel (requirements_of form) user \<and>
      \<not> fails_minDaysActive (requirements_of form) user now \<and>
      \<not> fails_requiredDepartments (requirements_of form) user \<and>
      \<not> fails_blacklistedRoles (requirements_of form) user)"

section \<open>Concrete scenarios\<close>

text \<open>Results for hr, an unlisted department, corporate (ineligible) and moderation.\<close>

definition ex_results :: "dept_result list" where
  "ex_results =
     [\<lparr>dr_id = ''hr'', dr_name = ''HR'', dr_role = Some ''Staff'', dr_rank = Some 50,
       dr_eligible = True, dr_status = ''pending''\<rparr>,
      \<lparr>dr_id = ''events'', dr_name = ''Events'', dr_role = None, dr_rank = None,
       dr_eligible = True, dr_status = ''active''\<rparr>,
      \<lparr>dr_id = ''corporate'', dr_name = ''Corporate'', dr_role = None, dr_rank = None,
       dr_eligible = False, dr_status = ''ineligible''\<rparr>,
      \<lparr>dr_id = ''moderation'', dr_name = ''Moderation'', dr_role = Some ''Mod'', dr_rank = Some 20,
       dr_eligible = True, dr_status = ''active''\<rparr>]"

text \<open>
  A store with an auto-approving department (corporate, required rank 10) and one that
  needs approval (hr, required rank 5); user u1 has hr stored as primary department, every
  other user has none. The group service reports the main group, rank 50 in the corporate
  group and rank 5 in the hr group.
\<close>

definition ex_corporate :: department where
  "ex_corporate = \<lparr>d_isActive = True, d_groupId = ''100'', d_name = Some ''Corporate'',
     d_settings = Some \<lparr>requiredRole = Some 10, autoApprove = True\<rparr>, d_members = Map.empty\<rparr>"

definition ex_hr :: department where
  "ex_hr = \<lparr>d_isActive = True, d_groupId = ''200'', d_name = Some ''HR'',
     d_settings = Some \<lparr>requiredRole = Some 5, autoApprove = False\<rparr>, d_members = Map.empty\<rparr>"

definition ex_memberships :: "membership list" where
  "ex_memberships =
     [\<lparr>m_groupId = ''5692925'', m_roleName = ''Member'', m_roleRank = 1\<rparr>,
      \<lparr>m_groupId = ''100'', m_roleName = ''Director'', m_roleRank = 50\<rparr>,
      \<lparr>m_groupId = ''200'', m_roleName = ''Staff'', m_roleRank = 5\<rparr>]"

definition ex_store :: store where
  "ex_store = \<lparr>departments = [(''corporate'', ex_corporate), (''hr'', ex_hr)],
     users = (\<lambda>u. \<lparr>u_profile_role = None,
                    u_primaryDepartment = (if u = ''u1'' then Some ''hr'' else None),
                    u_updatedAt = None\<rparr>)\<rparr>"

text \<open>The same store before any primary department was stored.\<close>

definition ex_store_before :: store where
  "ex_store_before = \<lparr>departments = [(''corporate'', ex_corporate), (''hr'', ex_hr)],
     users = (\<lambda>u. \<lparr>u_profile_role = None, u_primaryDepartment = None, u_updatedAt = None\<rparr>)\<rparr>"

text \<open>
  The user data of a request that carries no primary department: the token path when the
  node was read before one was stored, or the API-key path.
\<close>

definition ex_userData_without_primary :: user_node where
  "ex_userData_without_primary =
     \<lparr>u_profile_role = None, u_primaryDepartment = None, u_updatedAt = None\<rparr>"

text \<open>
  A level-1 user whose department, as an administrator can store it through
  \<^verbatim>\<open>PUT /api/users/{userId}/permissions\<close>, is the string \<^verbatim>\<open>constructor\<close>.
\<close>

definition ex_constructor_user :: "app_userData option" where
  "ex_constructor_user = Some \<lparr>ud_primaryDepartment = None, ud_department = None,
     ud_permissions_department = Some ''constructor'', ud_permissions_level = Some 1\<rparr>"

text \<open>A level-3 user with primary department lr.\<close>

definition ex_lr_user :: "app_userData option" where
  "ex_lr_user = Some \<lparr>ud_primaryDepartment = Some ''lr'', ud_department = None,
                      ud_permissions_department = Some ''hr'', ud_permissions_level = Some 3\<rparr>"

text \<open>
A quiz of three questions, and a response with the first and third answer right.
\<close>

definition ex_quiz :: quiz_field where
  "ex_quiz = \<lparr>questions = [\<lparr>q_correct = JNum 2\<rparr>, \<lparr>q_correct = JStr ''b''\<rparr>, \<lparr>q_correct = JNum 0\<rparr>]\<rparr>"

definition ex_quiz_response :: js where
  "ex_quiz_response = JObj [(''answers'', JArr [JNum 2, JStr ''a'', JNum 0])]"

text \<open>
  Session s1 has two places, both taken by pushed registrations; session s2 has two
  free places and no attendee yet; user u3 exists. Also a task under review assigned to u1.
\<close>

definition ex_full_session :: session where
  "ex_full_session =
     \<lparr>ses_capacity = \<lparr>cap_min = 1, cap_max = 2, cap_current = 2\<rparr>, ses_requirements = None,
      ses_attendees = AttendeeObject
        [(''-k1'', \<lparr>att_userId = ''u1'', att_status = ''confirmed'', att_registeredAt = 10\<rparr>),
         (''-k2'', \<lparr>att_userId = ''u2'', att_status = ''confirmed'', att_registeredAt = 20\<rparr>)]\<rparr>"

definition ex_open_session :: session where
  "ex_open_session =
     \<lparr>ses_capacity = \<lparr>cap_min = 1, cap_max = 2, cap_current = 0\<rparr>, ses_requirements = None,
      ses_attendees = NoAttendees\<rparr>"

definition ex_sessions :: sessions_store where
  "ex_sessions =
     \<lparr>sessions = [''s1'' \<mapsto> ex_full_session, ''s2'' \<mapsto> ex_open_session],
      session_users = [''u3'' \<mapsto> \<lparr>perm_level = Some 1, perm_department = None,
                                    perm_role = None, activity_createdAt = None\<rparr>]\<rparr>"

definition ex_task :: assignment where
  "ex_task = \<lparr>asg_assignedTo = ''u1'', asg_status = ''under_review'', asg_updatedAt = None,
               asg_completedAt = None, asg_completedBy = None\<rparr>"

text \<open>
  A form for hr members of level 2 with seven days of activity; u1 has a rejected
  submission for it, u2 an approved one. Both accounts were created at time 0.
\<close>

definition ex_member :: user_record where
  "ex_member = \<lparr>perm_level = Some 3, perm_department = Some ''hr'', perm_role = Some ''staff'',
                 activity_createdAt = Some 0\<rparr>"

definition ex_form :: form_template where
  "ex_form = \<lparr>f_requirements = Some \<lparr>minLevel = Some 2, minDaysActive = Some 7,
                 requiredDepartments = Some [''hr''], blacklistedRoles = Some [''guest'']\<rparr>\<rparr>"

definition ex_forms :: forms_store where
  "ex_forms =
     \<lparr>templates = [''f1'' \<mapsto> ex_form],
      form_users = [''u1'' \<mapsto> ex_member, ''u2'' \<mapsto> ex_member],
      submissions = [\<lparr>sub_userId = ''u1'', sub_formId = ''f1'', sub_status = ''rejected''\<rparr>,
                     \<lparr>sub_userId = ''u2'', sub_formId = ''f1'', sub_status = ''approved''\<rparr>]\<rparr>"

section \<open>Verified properties\<close>

subsection \<open>Primary-department priority\<close>


lemma indexOf_absent: "s \<notin> set xs \<Longrightarrow> indexOf xs s = -1"
  by (induction xs) (auto simp: Let_def)

lemma indexOf_present: "s \<in> set xs \<Longrightarrow> 0 \<le> indexOf xs s \<and> indexOf xs s < int (length xs)"
  by (induction xs) (auto simp: Let_def)

lemma priority_compare_rank:
  "priority_compare a b \<le> 0 \<longleftrightarrow> hierarchy_rank (dr_id a) \<le> hierarchy_rank (dr_id b)"
proof -
  have absent: "\<And>s. s \<notin> set DEPARTMENT_HIERARCHY \<Longrightarrow> indexOf DEPARTMENT_HIERARCHY s = -1"
    by (rule indexOf_absent)
  have present: "\<And>s. s \<in> set DEPARTMENT_HIERARCHY \<Longrightarrow>
      0 \<le> indexOf DEPARTMENT_HIERARCHY s \<and> indexOf DEPARTMENT_HIERARCHY s < int (length DEPARTMENT_HIERARCHY)"
    by (rule indexOf_present)
  show ?thesis
  proof (cases "dr_id a \<in> set DEPARTMENT_HIERARCHY"; cases "dr_id b \<in> set DEPARTMENT_HIERARCHY")
    assume a: "dr_id a \<in> set DEPARTMENT_HIERARCHY" and b: "dr_id b \<in> set DEPARTMENT_HIERARCHY"
    from present[OF a] present[OF b] a b show ?thesis
      by (auto simp: priority_compare_def hierarchy_rank_def Let_def)
  next
    assume a: "dr_id a \<in> set DEPARTMENT_HIERARCHY" and b: "dr_id b \<notin> set DEPARTMENT_HIERARCHY"
    from present[OF a] absent[OF b] a b show ?thesis
      by (auto simp: priority_compare_def hierarchy_rank_def Let_def)
  next
    assume a: "dr_id a \<notin> set DEPARTMENT_HIERARCHY" and b: "dr_id b \<in> set DEPARTMENT_HIERARCHY"
    from absent[OF a] present[OF b] a b show ?thesis
      by (auto simp: priority_compare_def hierarchy_rank_def Let_def)
  next
    assume a: "dr_id a \<notin> set DEPARTMENT_HIERARCHY" and b: "dr_id b \<notin> set DEPARTMENT_HIERARCHY"
    from absent[OF a] absent[OF b] a b show ?thesis
      by (auto simp: priority_compare_def hierarchy_rank_def Let_def)
  qed
qed

lemma insert_by_insort:
  "insert_by priority_compare x ys = insort_key (\<lambda>r. hierarchy_rank (dr_id r)) x ys"
  by (induction ys) (simp_all add: priority_compare_rank)

lemma sort_by_sort_key:
  "sort_by priority_compare xs = sort_key (\<lambda>r. hierarchy_rank (dr_id r)) xs"
  unfolding sort_by_def sort_key_def
  by (induction xs) (simp_all add: insert_by_insort)

lemma sort_key_head:
  assumes "sort_key f xs = y # ys"
  shows "y \<in> set xs \<and> (\<forall>x \<in> set xs. f y \<le> f x)"
proof -
  have s: "sorted (map f (y # ys))" using assms sorted_sort_key[of f xs] by simp
  have m: "set (y # ys) = set xs" using assms set_sort[of f xs] by simp
  from m have "y \<in> set xs" by auto
  moreover have "\<forall>x \<in> set xs. f y \<le> f x"
  proof
    fix x assume "x \<in> set xs"
    then have "x \<in> set (y # ys)" using m by simp
    then show "f y \<le> f x" using s by auto
  qed
  ultimately show ?thesis by simp
qed

lemma sort_key_Nil: "sort_key f xs = [] \<longleftrightarrow> xs = []"
  using length_sort[of f xs] by (metis length_0_conv)

lemma hierarchy_ranks:
  "map hierarchy_rank DEPARTMENT_HIERARCHY = [0, 1, 2, 3, 4, 5, 6]"
  by (simp add: hierarchy_rank_def DEPARTMENT_HIERARCHY_def)

lemma hierarchy_rank_absent:
  "d \<notin> set DEPARTMENT_HIERARCHY \<Longrightarrow> hierarchy_rank d = 7"
  by (simp add: hierarchy_rank_def DEPARTMENT_HIERARCHY_def)

lemma hierarchy_rank_le_1:
  "hierarchy_rank d \<le> 1 \<Longrightarrow> d = ''corporate'' \<or> d = ''moderation''"
  by (auto simp: hierarchy_rank_def DEPARTMENT_HIERARCHY_def split: if_splits)

lemma highest_some:
  assumes "r \<in> set rs" "dr_eligible r"
  shows "\<exists>w \<in> set rs. dr_eligible w \<and> getHighestPriorityDepartment rs = Some (dr_id w) \<and>
           (\<forall>r' \<in> set rs. dr_eligible r' \<longrightarrow> hierarchy_rank (dr_id w) \<le> hierarchy_rank (dr_id r'))"
proof -
  let ?f = "\<lambda>r. hierarchy_rank (dr_id r)"
  let ?es = "filter dr_eligible rs"
  from assms have ne: "?es \<noteq> []" by (auto simp: filter_empty_conv)
  then have "sort_key ?f ?es \<noteq> []" by (simp add: sort_key_Nil)
  then obtain w ws where w: "sort_key ?f ?es = w # ws" by (cases "sort_key ?f ?es") auto
  from sort_key_head[OF w] have hw: "w \<in> set ?es" "\<forall>x \<in> set ?es. ?f w \<le> ?f x" by auto
  from assms(1) have "rs \<noteq> []" by auto
  then have "getHighestPriorityDepartment rs = Some (dr_id w)"
    using w by (simp add: getHighestPriorityDepartment_def sort_by_sort_key)
  with hw show ?thesis by auto
qed

lemma highest_none:
  "\<forall>r \<in> set rs. \<not> dr_eligible r \<Longrightarrow> getHighestPriorityDepartment rs = None"
proof -
  assume "\<forall>r \<in> set rs. \<not> dr_eligible r"
  then have "filter dr_eligible rs = []" by (simp add: filter_empty_conv)
  then show ?thesis by (simp add: getHighestPriorityDepartment_def sort_by_def)
qed


text \<open>
  Claim C4. Whenever some result is eligible, \<^verbatim>\<open>getHighestPriorityDepartment\<close> returns the
  id of an eligible result whose place in the hierarchy corporate, moderation,
  public-relations, talent-acquisition, hr, mr, lr is no later than that of any other
  eligible result, a department absent from the hierarchy ranking after all listed ones;
  it returns \<^verbatim>\<open>null\<close> when no result is eligible. In particular a user eligible for
  moderation and hr (and not for corporate) gets moderation.
\<close>

theorem highest_priority_department_earliest_in_hierarchy:
  "((\<exists>r \<in> set rs. dr_eligible r) \<longrightarrow>
      (\<exists>w \<in> set rs. dr_eligible w \<and> getHighestPriorityDepartment rs = Some (dr_id w) \<and>
         (\<forall>r' \<in> set rs. dr_eligible r' \<longrightarrow>
            hierarchy_rank (dr_id w) \<le> hierarchy_rank (dr_id r')))) \<and>
   ((\<forall>r \<in> set rs. \<not> dr_eligible r) \<longrightarrow> getHighestPriorityDepartment rs = None) \<and>
   map hierarchy_rank
     [''corporate'', ''moderation'', ''public-relations'', ''talent-acquisition'',
      ''hr'', ''mr'', ''lr''] = [0, 1, 2, 3, 4, 5, 6] \<and>
   (d \<notin> set DEPARTMENT_HIERARCHY \<longrightarrow> hierarchy_rank d = 7) \<and>
   ((\<exists>r \<in> set rs. dr_eligible r \<and> dr_id r = ''moderation'') \<and>
    (\<exists>r \<in> set rs. dr_eligible r \<and> dr_id r = ''hr'') \<and>
    (\<forall>r \<in> set rs. dr_eligible r \<longrightarrow> dr_id r \<noteq> ''corporate'') \<longrightarrow>
      getHighestPriorityDepartment rs = Some ''moderation'')"
proof (intro conjI impI)
  assume "\<exists>r \<in> set rs. dr_eligible r"
  then show "\<exists>w \<in> set rs. dr_eligible w \<and> getHighestPriorityDepartment rs = Some (dr_id w) \<and>
         (\<forall>r' \<in> set rs. dr_eligible r' \<longrightarrow>
            hierarchy_rank (dr_id w) \<le> hierarchy_rank (dr_id r'))"
    using highest_some by blast
next
  assume "\<forall>r \<in> set rs. \<not> dr_eligible r"
  then show "getHighestPriorityDepartment rs = None" by (rule highest_none)
next
  show "map hierarchy_rank
     [''corporate'', ''moderation'', ''public-relations'', ''talent-acquisition'',
      ''hr'', ''mr'', ''lr''] = [0, 1, 2, 3, 4, 5, 6]"
    using hierarchy_ranks by (simp add: DEPARTMENT_HIERARCHY_def)
next
  assume "d \<notin> set DEPARTMENT_HIERARCHY"
  then show "hierarchy_rank d = 7" by (rule hierarchy_rank_absent)
next
  assume a: "(\<exists>r \<in> set rs. dr_eligible r \<and> dr_id r = ''moderation'') \<and>
    (\<exists>r \<in> set rs. dr_eligible r \<and> dr_id r = ''hr'') \<and>
    (\<forall>r \<in> set rs. dr_eligible r \<longrightarrow> dr_id r \<noteq> ''corporate'')"
  then obtain m where m: "m \<in> set rs" "dr_eligible m" "dr_id m = ''moderation''" by blast
  from highest_some[OF m(1,2)] obtain w where
    w: "w \<in> set rs" "dr_eligible w" "getHighestPriorityDepartment rs = Some (dr_id w)"
       "\<forall>r' \<in> set rs. dr_eligible r' \<longrightarrow> hierarchy_rank (dr_id w) \<le> hierarchy_rank (dr_id r')"
    by blast
  from w(4) m have "hierarchy_rank (dr_id w) \<le> hierarchy_rank ''moderation''" by fastforce
  then have "hierarchy_rank (dr_id w) \<le> 1"
    by (simp add: hierarchy_rank_def DEPARTMENT_HIERARCHY_def)
  then have "dr_id w = ''corporate'' \<or> dr_id w = ''moderation''" by (rule hierarchy_rank_le_1)
  moreover from a w(1,2) have "dr_id w \<noteq> ''corporate''" by blast
  ultimately show "getHighestPriorityDepartment rs = Some ''moderation''" using w(3) by simp
qed

text \<open>The scenario \<open>ex_results\<close>: hr, an unlisted department and moderation are eligible.\<close>

theorem highest_priority_department_witness:
  "getHighestPriorityDepartment ex_results = Some ''moderation''"
  using highest_priority_department_earliest_in_hierarchy [of ex_results]
  by (simp add: ex_results_def)

subsection \<open>The \<^verbatim>\<open>/eligible\<close> handler\<close>


lemma handler_departments:
  "departments (fst (eligible_handler st now (Some ms) uid ud)) =
     apply_writes uid (filter (\<lambda>oc. oc_write oc \<noteq> None) (dept_outcomes uid ms now (departments st)))
       (departments st)"
  by (simp add: eligible_handler_def dept_outcomes_def Let_def updateUser_primaryDepartment_def
      split: option.split)

lemma handler_response:
  "\<exists>resp. snd (eligible_handler st now (Some ms) uid ud) = Some resp \<and>
     resp_departments resp =
       map oc_result (filter (\<lambda>oc. oc_write oc = None) (dept_outcomes uid ms now (departments st))) @
       map oc_result (filter (\<lambda>oc. oc_write oc \<noteq> None) (dept_outcomes uid ms now (departments st))) \<and>
     autoAddDepartments resp =
       map (\<lambda>oc. dr_id (oc_result oc))
         (filter (\<lambda>oc. oc_write oc \<noteq> None) (dept_outcomes uid ms now (departments st)))"
  by (simp add: eligible_handler_def dept_outcomes_def Let_def split: option.split)

lemma split_results_set:
  "set (map f (filter (\<lambda>oc. w oc = None) ocs) @ map f (filter (\<lambda>oc. w oc \<noteq> None) ocs)) = f ` set ocs"
proof -
  have "{x \<in> set ocs. w x = None} \<union> {x \<in> set ocs. w x \<noteq> None} = set ocs" by blast
  then have "f ` {x \<in> set ocs. w x = None} \<union> f ` {x \<in> set ocs. w x \<noteq> None} = f ` set ocs"
    by (metis image_Un)
  then show ?thesis by simp
qed

lemma handler_failure: "eligible_handler st now None uid ud = (st, None)"
  by (simp add: eligible_handler_def)

lemma handler_primary_kept:
  "truthy (u_primaryDepartment ud) \<Longrightarrow>
   users (fst (eligible_handler st now api uid ud)) =
     (case api of None \<Rightarrow> users st
      | Some ms \<Rightarrow> (users st)(uid := (users st uid)
          \<lparr>u_profile_role := map_option gr_name (build_groupRoleMap ms MAIN_GROUP_ID)\<rparr>))"
  by (simp add: eligible_handler_def Let_def split: option.split)


lemma check_department_id:
  "check_department uid g mg now ident dept = Some oc \<Longrightarrow> dr_id (oc_result oc) = ident"
  by (auto simp: check_department_def Let_def split: if_splits)

lemma check_newly_eligible:
  assumes "d_isActive dept" and "newly_eligible ms uid dept"
  shows "check_department uid (build_groupRoleMap ms)
           (build_groupRoleMap ms MAIN_GROUP_ID \<noteq> None) now ident dept =
         (let g = build_groupRoleMap ms (d_groupId dept);
              res = (\<lambda>status. \<lparr>dr_id = ident,
                       dr_name = (case d_name dept of None \<Rightarrow> [] | Some n \<Rightarrow> n),
                       dr_role = map_option gr_name g, dr_rank = map_option gr_rank g,
                       dr_eligible = True, dr_status = status\<rparr>)
          in if auto_approves dept
             then Some \<lparr>oc_result = res ''active'',
                        oc_write = Some \<lparr>me_joinedAt = now, me_role = map_option gr_name g,
                                         me_rank = map_option gr_rank g\<rparr>\<rparr>
             else Some \<lparr>oc_result = res ''pending'', oc_write = None\<rparr>)"
  using assms unfolding check_department_def newly_eligible_def required_rank_def auto_approves_def
  by (simp add: Let_def)

lemma outcomes_set:
  "set (dept_outcomes uid ms now ds) =
     {oc. \<exists>(ident, dept) \<in> set ds.
        check_department uid (build_groupRoleMap ms)
          (build_groupRoleMap ms MAIN_GROUP_ID \<noteq> None) now ident dept = Some oc}"
  by (force simp: dept_outcomes_def map_filter_def image_iff)

lemma outcomes_ids_distinct:
  "distinct (map fst ds) \<Longrightarrow>
   distinct (map (\<lambda>oc. dr_id (oc_result oc)) (dept_outcomes uid ms now ds))"
proof (induction ds)
  case Nil
  then show ?case by (simp add: dept_outcomes_def)
next
  case (Cons a ds)
  obtain k d where a: "a = (k, d)" by (cases a)
  have tl: "distinct (map (\<lambda>oc. dr_id (oc_result oc)) (dept_outcomes uid ms now ds))"
    using Cons by simp
  have notin: "\<forall>oc \<in> set (dept_outcomes uid ms now ds). dr_id (oc_result oc) \<noteq> k"
  proof
    fix oc assume "oc \<in> set (dept_outcomes uid ms now ds)"
    then obtain i e where ie: "(i, e) \<in> set ds"
      "check_department uid (build_groupRoleMap ms)
          (build_groupRoleMap ms MAIN_GROUP_ID \<noteq> None) now i e = Some oc"
      by (auto simp: outcomes_set)
    then have "dr_id (oc_result oc) = i" by (simp add: check_department_id)
    moreover have "i \<noteq> k" using ie(1) Cons.prems a by force
    ultimately show "dr_id (oc_result oc) \<noteq> k" by simp
  qed
  show ?case
  proof (cases "check_department uid (build_groupRoleMap ms)
          (build_groupRoleMap ms MAIN_GROUP_ID \<noteq> None) now k d")
    case None
    then have "dept_outcomes uid ms now (a # ds) = dept_outcomes uid ms now ds"
      by (simp add: dept_outcomes_def a)
    then show ?thesis using tl by simp
  next
    case (Some oc)
    then have "dept_outcomes uid ms now (a # ds) = oc # dept_outcomes uid ms now ds"
      by (simp add: dept_outcomes_def a)
    moreover have "dr_id (oc_result oc) = k" using Some by (simp add: check_department_id)
    ultimately show ?thesis using tl notin by auto
  qed
qed


lemma map_of_set_member:
  "map_of (set_member k uid e ds) i =
     (if i = k then map_option (add_member uid e) (map_of ds i) else map_of ds i)"
  by (induction ds) (auto simp: set_member_def)

lemma apply_writes_other:
  "\<forall>oc \<in> set ocs. oc_write oc \<noteq> None \<longrightarrow> dr_id (oc_result oc) \<noteq> i \<Longrightarrow>
   map_of (apply_writes uid ocs ds) i = map_of ds i"
proof (induction ocs arbitrary: ds)
  case Nil
  then show ?case by simp
next
  case (Cons oc ocs)
  show ?case
  proof (cases "oc_write oc")
    case None
    then show ?thesis using Cons by simp
  next
    case (Some e)
    then have "dr_id (oc_result oc) \<noteq> i" using Cons.prems by simp
    then have "map_of (set_member (dr_id (oc_result oc)) uid e ds) i = map_of ds i"
      by (simp add: map_of_set_member)
    then show ?thesis using Some Cons by simp
  qed
qed

lemma apply_writes_this:
  assumes "distinct (map (\<lambda>oc. dr_id (oc_result oc)) ocs)"
    and "oc \<in> set ocs" and "oc_write oc = Some e" and "dr_id (oc_result oc) = i"
  shows "map_of (apply_writes uid ocs ds) i =
           map_option (add_member uid e) (map_of ds i)"
  using assms
proof (induction ocs arbitrary: ds)
  case Nil
  then show ?case by simp
next
  case (Cons o' ocs)
  show ?case
  proof (cases "o' = oc")
    case True
    have "i \<notin> (\<lambda>oc. dr_id (oc_result oc)) ` set ocs"
      using Cons.prems(1,4) True by simp
    then have "\<forall>x \<in> set ocs. oc_write x \<noteq> None \<longrightarrow> dr_id (oc_result x) \<noteq> i"
      by blast
    then have "map_of (apply_writes uid ocs (set_member i uid e ds)) i =
                 map_of (set_member i uid e ds) i"
      by (rule apply_writes_other)
    then show ?thesis using True Cons.prems(3,4) by (simp add: map_of_set_member)
  next
    case False
    then have mem: "oc \<in> set ocs" using Cons.prems(2) by simp
    have d: "distinct (map (\<lambda>oc. dr_id (oc_result oc)) ocs)" using Cons.prems(1) by simp
    have ne: "dr_id (oc_result o') \<noteq> i" using Cons.prems(1,4) mem by force
    show ?thesis
    proof (cases "oc_write o'")
      case None
      then show ?thesis using Cons.IH[OF d mem Cons.prems(3,4)] by simp
    next
      case (Some e')
      have "map_of (apply_writes uid ocs (set_member (dr_id (oc_result o')) uid e' ds)) i =
              map_option (add_member uid e)
                (map_of (set_member (dr_id (oc_result o')) uid e' ds) i)"
        by (rule Cons.IH[OF d mem Cons.prems(3,4)])
      then show ?thesis using Some ne by (simp add: map_of_set_member)
    qed
  qed
qed

lemma request_members_of:
  "members_of (fst (eligible_handler st now (Some ms) uid userData)) ident =
     (case map_of (apply_writes uid
              (filter (\<lambda>oc. oc_write oc \<noteq> None) (dept_outcomes uid ms now (departments st)))
              (departments st)) ident of
        None \<Rightarrow> Map.empty | Some d \<Rightarrow> d_members d)"
  by (simp add: members_of_def handler_departments)

lemma outcome_of_entry:
  assumes "distinct (map fst ds)" and "(ident, dept) \<in> set ds"
    and "oc \<in> set (dept_outcomes uid ms now ds)" and "dr_id (oc_result oc) = ident"
  shows "check_department uid (build_groupRoleMap ms)
           (build_groupRoleMap ms MAIN_GROUP_ID \<noteq> None) now ident dept = Some oc"
proof -
  from assms(3) obtain i e where ie: "(i, e) \<in> set ds"
      "check_department uid (build_groupRoleMap ms)
          (build_groupRoleMap ms MAIN_GROUP_ID \<noteq> None) now i e = Some oc"
    by (auto simp: outcomes_set)
  then have "i = ident" using assms(4) check_department_id by fastforce
  moreover then have "e = dept" using assms(1,2) ie(1) by (meson eq_key_imp_eq_value)
  ultimately show ?thesis using ie(2) by simp
qed

lemma entry_outcome:
  assumes "(ident, dept) \<in> set ds"
    and "check_department uid (build_groupRoleMap ms)
           (build_groupRoleMap ms MAIN_GROUP_ID \<noteq> None) now ident dept = Some oc"
  shows "oc \<in> set (dept_outcomes uid ms now ds)"
  using assms by (auto simp: outcomes_set)


lemma map_of_entry:
  "distinct (map fst ds) \<Longrightarrow> (ident, dept) \<in> set ds \<Longrightarrow> map_of ds ident = Some dept"
  by simp

text \<open>
  Claim C2. For an active department that does not auto-approve and a user who is newly
  eligible for it (main-group member, rank in the backing group at or above the required
  rank, not yet a member), a request, whatever user data the middleware attached to it,
  leaves the department node as it was, so the user is
  not among its members afterwards, and the response reports the department with status
  "pending" (and eligible), not among the auto-added ones.
\<close>

theorem manual_approval_never_writes_member:
  assumes "distinct (map fst (departments st))"
    and "(ident, dept) \<in> set (departments st)"
    and "d_isActive dept"
    and "\<not> auto_approves dept"
    and "newly_eligible ms uid dept"
  shows "map_of (departments (fst (eligible_handler st now (Some ms) uid userData))) ident = Some dept \<and>
         members_of (fst (eligible_handler st now (Some ms) uid userData)) ident uid = None \<and>
         (\<exists>resp. snd (eligible_handler st now (Some ms) uid userData) = Some resp \<and>
            (\<exists>r \<in> set (resp_departments resp). dr_id r = ident) \<and>
            (\<forall>r \<in> set (resp_departments resp).
               dr_id r = ident \<longrightarrow> dr_status r = ''pending'' \<and> dr_eligible r) \<and>
            ident \<notin> set (autoAddDepartments resp))"
proof -
  let ?ocs = "dept_outcomes uid ms now (departments st)"
  let ?aw = "filter (\<lambda>oc. oc_write oc \<noteq> None) ?ocs"
  let ?g = "build_groupRoleMap ms (d_groupId dept)"
  let ?oc = "\<lparr>oc_result = \<lparr>dr_id = ident,
                 dr_name = (case d_name dept of None \<Rightarrow> [] | Some n \<Rightarrow> n),
                 dr_role = map_option gr_name ?g, dr_rank = map_option gr_rank ?g,
                 dr_eligible = True, dr_status = ''pending''\<rparr>, oc_write = None\<rparr>"
  have chk: "check_department uid (build_groupRoleMap ms)
           (build_groupRoleMap ms MAIN_GROUP_ID \<noteq> None) now ident dept = Some ?oc"
    using check_newly_eligible[OF assms(3,5), of now ident] assms(4) by (simp add: Let_def)
  have only: "\<And>oc. oc \<in> set ?ocs \<Longrightarrow> dr_id (oc_result oc) = ident \<Longrightarrow> oc = ?oc"
    using outcome_of_entry[OF assms(1,2)] chk by fastforce
  have only_w: "oc_write oc = None \<and> dr_status (oc_result oc) = ''pending'' \<and>
                dr_eligible (oc_result oc)"
    if "oc \<in> set ?ocs" "dr_id (oc_result oc) = ident" for oc
  proof -
    have e: "oc = ?oc" using that by (rule only)
    show ?thesis by (subst e, simp)+
  qed
  have mem: "?oc \<in> set ?ocs" using entry_outcome[OF assms(2) chk] .
  have "\<forall>oc \<in> set ?aw. oc_write oc \<noteq> None \<longrightarrow> dr_id (oc_result oc) \<noteq> ident"
    using only_w by auto
  then have "map_of (apply_writes uid ?aw (departments st)) ident = map_of (departments st) ident"
    by (rule apply_writes_other)
  then have kept: "map_of (departments (fst (eligible_handler st now (Some ms) uid userData))) ident = Some dept"
    using map_of_entry[OF assms(1,2)] by (simp add: handler_departments)
  have nomem: "d_members dept uid = None" using assms(5) by (simp add: newly_eligible_def)
  have m: "members_of (fst (eligible_handler st now (Some ms) uid userData)) ident uid = None"
    using kept nomem by (simp add: members_of_def)
  obtain resp where resp: "snd (eligible_handler st now (Some ms) uid userData) = Some resp"
    "resp_departments resp =
       map oc_result (filter (\<lambda>oc. oc_write oc = None) ?ocs) @ map oc_result ?aw"
    "autoAddDepartments resp = map (\<lambda>oc. dr_id (oc_result oc)) ?aw"
    using handler_response[of st now ms uid userData] by blast
  have rs: "set (resp_departments resp) = oc_result ` set ?ocs"
    unfolding resp(2) by (rule split_results_set)
  have a: "\<exists>r \<in> set (resp_departments resp). dr_id r = ident"
    unfolding rs using mem by force
  have b: "\<forall>r \<in> set (resp_departments resp).
               dr_id r = ident \<longrightarrow> dr_status r = ''pending'' \<and> dr_eligible r"
    unfolding rs using only_w by auto
  have c: "ident \<notin> set (autoAddDepartments resp)"
    unfolding resp(3) using only_w by auto
  show ?thesis using kept m resp(1) a b c by simp
qed


lemma groupRoleMap_fold_source:
  "foldl (\<lambda>m g. m(m_groupId g \<mapsto> \<lparr>gr_name = m_roleName g, gr_rank = m_roleRank g\<rparr>)) acc ms gid = Some r
   \<Longrightarrow> acc gid = Some r \<or>
       (\<exists>m \<in> set ms. m_groupId m = gid \<and> gr_name r = m_roleName m \<and> gr_rank r = m_roleRank m)"
proof (induction ms arbitrary: acc)
  case Nil
  then show ?case by simp
next
  case (Cons a ms)
  from Cons.IH[of "acc(m_groupId a \<mapsto> \<lparr>gr_name = m_roleName a, gr_rank = m_roleRank a\<rparr>)"] Cons.prems
  have "(acc(m_groupId a \<mapsto> \<lparr>gr_name = m_roleName a, gr_rank = m_roleRank a\<rparr>)) gid = Some r \<or>
       (\<exists>m \<in> set ms. m_groupId m = gid \<and> gr_name r = m_roleName m \<and> gr_rank r = m_roleRank m)"
    by simp
  then show ?case by (auto split: if_splits)
qed

lemma groupRoleMap_source:
  "build_groupRoleMap ms gid = Some r \<Longrightarrow>
   \<exists>m \<in> set ms. m_groupId m = gid \<and> gr_name r = m_roleName m \<and> gr_rank r = m_roleRank m"
  using groupRoleMap_fold_source[of Map.empty ms gid r] by (simp add: build_groupRoleMap_def)

text \<open>
  Claim C3. For an active auto-approving department and a newly eligible user, a request,
  whatever user data the middleware attached to it, adds to the department's members the entry \<^verbatim>\<open>{joinedAt, role, rank}\<close> for the user,
  with the time of the request and the role name and rank that the group service reported
  for the backing group; the response reports the department with status "active" and
  lists its id among the auto-added departments.
\<close>

theorem auto_approval_writes_member_entry:
  assumes "distinct (map fst (departments st))"
    and "(ident, dept) \<in> set (departments st)"
    and "d_isActive dept"
    and "auto_approves dept"
    and "newly_eligible ms uid dept"
  shows "\<exists>g. build_groupRoleMap ms (d_groupId dept) = Some g \<and>
           (\<exists>m \<in> set ms. m_groupId m = d_groupId dept \<and>
                        gr_name g = m_roleName m \<and> gr_rank g = m_roleRank m) \<and>
           members_of (fst (eligible_handler st now (Some ms) uid userData)) ident =
             (d_members dept)(uid \<mapsto>
                \<lparr>me_joinedAt = now, me_role = Some (gr_name g), me_rank = Some (gr_rank g)\<rparr>) \<and>
           (\<exists>resp. snd (eligible_handler st now (Some ms) uid userData) = Some resp \<and>
              (\<exists>r \<in> set (resp_departments resp). dr_id r = ident) \<and>
              (\<forall>r \<in> set (resp_departments resp).
                 dr_id r = ident \<longrightarrow> dr_status r = ''active'' \<and> dr_eligible r) \<and>
              ident \<in> set (autoAddDepartments resp))"
proof -
  let ?ocs = "dept_outcomes uid ms now (departments st)"
  let ?aw = "filter (\<lambda>oc. oc_write oc \<noteq> None) ?ocs"
  obtain g where g: "build_groupRoleMap ms (d_groupId dept) = Some g"
    using assms(5) by (auto simp: newly_eligible_def split: option.splits)
  let ?e = "\<lparr>me_joinedAt = now, me_role = Some (gr_name g), me_rank = Some (gr_rank g)\<rparr>"
  let ?oc = "\<lparr>oc_result = \<lparr>dr_id = ident,
                 dr_name = (case d_name dept of None \<Rightarrow> [] | Some n \<Rightarrow> n),
                 dr_role = Some (gr_name g), dr_rank = Some (gr_rank g),
                 dr_eligible = True, dr_status = ''active''\<rparr>, oc_write = Some ?e\<rparr>"
  have chk: "check_department uid (build_groupRoleMap ms)
           (build_groupRoleMap ms MAIN_GROUP_ID \<noteq> None) now ident dept = Some ?oc"
    using check_newly_eligible[OF assms(3,5), of now ident] assms(4) g by (simp add: Let_def)
  have only: "\<And>oc. oc \<in> set ?ocs \<Longrightarrow> dr_id (oc_result oc) = ident \<Longrightarrow> oc = ?oc"
    using outcome_of_entry[OF assms(1,2)] chk by fastforce
  have only_w: "dr_status (oc_result oc) = ''active'' \<and> dr_eligible (oc_result oc)"
    if "oc \<in> set ?ocs" "dr_id (oc_result oc) = ident" for oc
  proof -
    have e: "oc = ?oc" using that by (rule only)
    show ?thesis by (subst e, simp)+
  qed
  have mem: "?oc \<in> set ?ocs" using entry_outcome[OF assms(2) chk] .
  then have memaw: "?oc \<in> set ?aw" by simp
  have dist: "distinct (map (\<lambda>oc. dr_id (oc_result oc)) ?aw)"
    using outcomes_ids_distinct[OF assms(1)] by (rule distinct_map_filter)
  have "map_of (apply_writes uid ?aw (departments st)) ident =
          map_option (add_member uid ?e) (map_of (departments st) ident)"
    by (rule apply_writes_this[OF dist memaw]) simp_all
  then have "map_of (departments (fst (eligible_handler st now (Some ms) uid userData))) ident =
          Some (add_member uid ?e dept)"
    using map_of_entry[OF assms(1,2)] by (simp add: handler_departments)
  then have m: "members_of (fst (eligible_handler st now (Some ms) uid userData)) ident =
             (d_members dept)(uid \<mapsto> ?e)"
    by (simp add: members_of_def add_member_def)
  obtain resp where resp: "snd (eligible_handler st now (Some ms) uid userData) = Some resp"
    "resp_departments resp =
       map oc_result (filter (\<lambda>oc. oc_write oc = None) ?ocs) @ map oc_result ?aw"
    "autoAddDepartments resp = map (\<lambda>oc. dr_id (oc_result oc)) ?aw"
    using handler_response[of st now ms uid userData] by blast
  have rs: "set (resp_departments resp) = oc_result ` set ?ocs"
    unfolding resp(2) by (rule split_results_set)
  have a: "\<exists>r \<in> set (resp_departments resp). dr_id r = ident"
    unfolding rs using mem by force
  have b: "\<forall>r \<in> set (resp_departments resp).
               dr_id r = ident \<longrightarrow> dr_status r = ''active'' \<and> dr_eligible r"
    unfolding rs using only_w by auto
  have c: "ident \<in> set (autoAddDepartments resp)"
    unfolding resp(3) using memaw by force
  show ?thesis using g groupRoleMap_source[OF g] m resp(1) a b c
    by simp
qed

lemma handler_users_other:
  "uid' \<noteq> uid \<Longrightarrow> users (fst (eligible_handler st now api uid ud)) uid' = users st uid'"
  by (simp add: eligible_handler_def Let_def updateUser_primaryDepartment_def split: option.split)

lemma handler_keeps_primary_given_in_userData:
  "truthy (u_primaryDepartment userData) \<Longrightarrow>
   u_primaryDepartment (users (fst (eligible_handler st now api uid userData)) uid') =
     u_primaryDepartment (users st uid')"
proof (cases "uid' = uid")
  case False
  then show ?thesis by (simp add: handler_users_other)
next
  case True
  assume "truthy (u_primaryDepartment userData)"
  then show ?thesis
    using True handler_primary_kept[of userData st now api uid]
    by (simp split: option.split)
qed

text \<open>
  Claim C1 fails on the code. The handler tests the primary department of \<open>userData\<close>,
  the record the middleware attached, not the one in the store. In \<open>ex_store\<close> user u1 has
  hr stored; handed a record without primary department (read before hr was stored, or
  built on the API-key path), the handler selects corporate and writes it over hr.
\<close>

theorem stale_userData_overwrites_primary_department:
  "u_primaryDepartment (users ex_store ''u1'') = Some ''hr'' \<and>
   u_primaryDepartment ex_userData_without_primary = None \<and>
   u_primaryDepartment
     (users (fst (eligible_handler ex_store 1000 (Some ex_memberships) ''u1''
                    ex_userData_without_primary)) ''u1'') = Some ''corporate''"
  by code_simp

text \<open>
  How a request comes to carry such user data on the token path: the middleware reads the
  node of u1 from \<open>ex_store_before\<close>; while the handler awaits the group service, the
  route that sets the primary department (lines 196-204) stores hr through the same
  \<^verbatim>\<open>updateUser\<close>; the handler then runs on the store that holds hr with the record read
  before, and replaces hr by corporate.
\<close>

lemma stale_userData_trace:
  "users ex_store_before ''u1'' = ex_userData_without_primary \<and>
   u_primaryDepartment
     (users (updateUser_primaryDepartment ''u1'' ''hr'' 900 ex_store_before) ''u1'') = Some ''hr'' \<and>
   u_primaryDepartment
     (users (fst (eligible_handler (updateUser_primaryDepartment ''u1'' ''hr'' 900 ex_store_before)
                    1000 (Some ex_memberships) ''u1'' (users ex_store_before ''u1''))) ''u1'')
     = Some ''corporate''"
  by code_simp

text \<open>
  In \<open>ex_store\<close> the hr department needs approval and u1 is newly eligible for it.
\<close>

theorem manual_approval_witness:
  "distinct (map fst (departments ex_store)) \<and> (''hr'', ex_hr) \<in> set (departments ex_store) \<and>
   d_isActive ex_hr \<and> \<not> auto_approves ex_hr \<and> newly_eligible ex_memberships ''u1'' ex_hr \<and>
   members_of (fst (eligible_handler ex_store 1000 (Some ex_memberships) ''u1'' (users ex_store ''u1''))) ''hr'' ''u1'' = None"
proof -
  have h1: "distinct (map fst (departments ex_store))" by (simp add: ex_store_def)
  have h2: "(''hr'', ex_hr) \<in> set (departments ex_store)" by (simp add: ex_store_def)
  have h3: "d_isActive ex_hr" by (simp add: ex_hr_def)
  have h4: "\<not> auto_approves ex_hr" by (simp add: ex_hr_def auto_approves_def)
  have h5: "newly_eligible ex_memberships ''u1'' ex_hr"
    by (simp add: newly_eligible_def ex_hr_def ex_memberships_def build_groupRoleMap_def
        MAIN_GROUP_ID_def required_rank_def)
  show ?thesis
    using h1 h2 h3 h4 h5 manual_approval_never_writes_member
            [OF h1 h2 h3 h4 h5, where now = 1000 and userData = "users ex_store ''u1''"]
    by simp
qed

text \<open>
  In \<open>ex_store\<close> the corporate department auto-approves and u1 is newly eligible for it.
\<close>

theorem auto_approval_witness:
  "distinct (map fst (departments ex_store)) \<and>
   (''corporate'', ex_corporate) \<in> set (departments ex_store) \<and>
   d_isActive ex_corporate \<and> auto_approves ex_corporate \<and>
   newly_eligible ex_memberships ''u1'' ex_corporate \<and>
   members_of (fst (eligible_handler ex_store 1000 (Some ex_memberships) ''u1'' (users ex_store ''u1''))) ''corporate'' ''u1''
     = Some \<lparr>me_joinedAt = 1000, me_role = Some ''Director'', me_rank = Some 50\<rparr>"
proof -
  have h1: "distinct (map fst (departments ex_store))" by (simp add: ex_store_def)
  have h2: "(''corporate'', ex_corporate) \<in> set (departments ex_store)" by (simp add: ex_store_def)
  have h3: "d_isActive ex_corporate" by (simp add: ex_corporate_def)
  have h4: "auto_approves ex_corporate" by (simp add: ex_corporate_def auto_approves_def)
  have h5: "newly_eligible ex_memberships ''u1'' ex_corporate"
    by (simp add: newly_eligible_def ex_corporate_def ex_memberships_def build_groupRoleMap_def
        MAIN_GROUP_ID_def required_rank_def)
  have g: "build_groupRoleMap ex_memberships (d_groupId ex_corporate) =
             Some \<lparr>gr_name = ''Director'', gr_rank = 50\<rparr>"
    by (simp add: ex_corporate_def ex_memberships_def build_groupRoleMap_def)
  show ?thesis
    using h1 h2 h3 h4 h5 g auto_approval_writes_member_entry
            [OF h1 h2 h3 h4 h5, where now = 1000 and userData = "users ex_store ''u1''"]
    by auto
qed

subsection \<open>Automated submission scorer\<close>

text \<open>
  With thresholds 50 (approve) and 60 (reject) a score of 55 is at most the reject
  threshold, yet the recommendation is "approve": the approve test comes first.
\<close>

theorem recommendation_reject_counterexample:
  "score_le (Num 55) (Some 60) \<and>
   recommendation (Some \<lparr>th_autoApprove = Some 50, th_autoReject = Some 60, th_manualReview = None\<rparr>)
     (Num 55) = ''approve''"
  by (simp add: recommendation_def score_le_def score_ge_def)

text \<open>
  Claim C7, amended. The recommendation is "approve" exactly when the overall score is at
  least the auto-approve threshold; "reject" exactly when it is below the auto-approve
  threshold and at most the auto-reject threshold; "review" otherwise. Without thresholds
  on the form the defaults 85 and 40 apply, under which "reject" is exactly a score of at
  most 40; then 90 gives "approve", 30 "reject" and 60 "review".
\<close>

theorem recommendation_by_thresholds:
  "(recommendation formThresholds overallScore = ''approve'' \<longleftrightarrow>
      score_ge overallScore
        (th_autoApprove (case formThresholds of None \<Rightarrow> default_thresholds | Some t \<Rightarrow> t))) \<and>
   (recommendation formThresholds overallScore = ''reject'' \<longleftrightarrow>
      \<not> score_ge overallScore
        (th_autoApprove (case formThresholds of None \<Rightarrow> default_thresholds | Some t \<Rightarrow> t)) \<and>
      score_le overallScore
        (th_autoReject (case formThresholds of None \<Rightarrow> default_thresholds | Some t \<Rightarrow> t))) \<and>
   (recommendation formThresholds overallScore = ''review'' \<longleftrightarrow>
      \<not> score_ge overallScore
        (th_autoApprove (case formThresholds of None \<Rightarrow> default_thresholds | Some t \<Rightarrow> t)) \<and>
      \<not> score_le overallScore
        (th_autoReject (case formThresholds of None \<Rightarrow> default_thresholds | Some t \<Rightarrow> t))) \<and>
   (recommendation None (Num n) = ''approve'' \<longleftrightarrow> n \<ge> 85) \<and>
   (recommendation None (Num n) = ''reject'' \<longleftrightarrow> n \<le> 40) \<and>
   (recommendation None (Num n) = ''review'' \<longleftrightarrow> 40 < n \<and> n < 85) \<and>
   recommendation None (Num 90) = ''approve'' \<and>
   recommendation None (Num 30) = ''reject'' \<and>
   recommendation None (Num 60) = ''review''"
  by (auto simp: recommendation_def default_thresholds_def score_ge_def score_le_def Let_def
      split: option.splits)

text \<open>
  With thresholds 50 and 60 a score of 45 is rejected.
\<close>

theorem recommendation_witness:
  "recommendation (Some \<lparr>th_autoApprove = Some 50, th_autoReject = Some 60, th_manualReview = None\<rparr>)
     (Num 45) = ''reject''"
  using recommendation_by_thresholds
    [of "Some \<lparr>th_autoApprove = Some 50, th_autoReject = Some 60, th_manualReview = None\<rparr>" "Num 45" 0]
  by (simp add: score_ge_def score_le_def)

lemma count_correct_le: "count_correct answers index qs \<le> length qs"
proof (induction qs arbitrary: index)
  case Nil
  then show ?case by simp
next
  case (Cons q qs)
  from Cons.IH[of "index + 1"] show ?case by simp
qed

lemma bit_length_upper: "n < 2 ^ bit_length n"
proof (induction n rule: bit_length.induct)
  case (1 n)
  show ?case
  proof (cases "n = 0")
    case True
    then show ?thesis by simp
  next
    case False
    then have "n div 2 < 2 ^ bit_length (n div 2)" using "1" by simp
    then have "n < 2 * 2 ^ bit_length (n div 2)" by linarith
    then show ?thesis using False by (subst bit_length.simps) simp
  qed
qed

lemma bit_length_lower: "0 < n \<Longrightarrow> 2 ^ (bit_length n - 1) \<le> n"
proof (induction n rule: bit_length.induct)
  case (1 n)
  show ?case
  proof (cases "n div 2 = 0")
    case True
    then have "bit_length (n div 2) = 0" by simp
    then have "bit_length n = 1" using "1.prems" by (subst bit_length.simps) simp
    then show ?thesis using "1.prems" by simp
  next
    case False
    then have IH: "2 ^ (bit_length (n div 2) - 1) \<le> n div 2" using "1" by simp
    have pos: "0 < bit_length (n div 2)" using False by (subst bit_length.simps) simp
    have "bit_length n = Suc (bit_length (n div 2))" using "1.prems" by (subst bit_length.simps) simp
    then have "(2::nat) ^ (bit_length n - 1) = 2 * 2 ^ (bit_length (n div 2) - 1)"
      using pos by (cases "bit_length (n div 2)") simp_all
    also have "\<dots> \<le> 2 * (n div 2)" using IH by simp
    also have "\<dots> \<le> n" by simp
    finally show ?thesis .
  qed
qed

lemma binade_lower: assumes "0 < x" shows "2 powi (binade x) \<le> x"
proof (cases "x \<ge> 1")
  case True
  let ?m = "nat \<lfloor>x\<rfloor>"
  have m: "0 < ?m" using True by simp
  have "binade x = int (bit_length ?m - 1)"
  proof -
    have "0 < bit_length ?m" using m by (subst bit_length.simps) simp
    then show ?thesis using True by (simp add: binade_def)
  qed
  then have "(2::rat) powi (binade x) = 2 ^ (bit_length ?m - 1)" by simp
  also have "\<dots> = rat_of_nat (2 ^ (bit_length ?m - 1))" by simp
  also have "\<dots> \<le> rat_of_nat ?m" using bit_length_lower[OF m] by (simp only: of_nat_le_iff)
  also have "\<dots> = rat_of_int \<lfloor>x\<rfloor>" using True by simp
  also have "\<dots> \<le> x" by simp
  finally show ?thesis .
next
  case False
  then have x1: "x < 1" by simp
  let ?N = "\<lceil>1 / x\<rceil>"
  let ?n = "bit_length (nat (?N - 1))"
  have "1 / x > 1" using assms x1 by simp
  then have N: "?N \<ge> 2" by (simp add: less_ceiling_iff)
  have "nat (?N - 1) < 2 ^ ?n" by (rule bit_length_upper)
  then have "?N - 1 < 2 ^ ?n" using N by (simp add: nat_less_iff)
  then have "?N \<le> 2 ^ ?n" by simp
  then have "rat_of_int ?N \<le> 2 ^ ?n" by (metis of_int_le_iff of_int_numeral of_int_power)
  moreover have "1 / x \<le> rat_of_int ?N" by simp
  ultimately have "1 / x \<le> 2 ^ ?n" by linarith
  then have "1 \<le> 2 ^ ?n * x" using assms by (simp add: divide_le_eq)
  then have "1 / 2 ^ ?n \<le> x" by (simp add: divide_le_eq mult.commute)
  moreover have "(2::rat) powi (binade x) = 1 / 2 ^ ?n"
    using False by (simp add: binade_def power_int_minus_divide)
  ultimately show ?thesis by simp
qed

lemma round_half_even_le: "y \<le> rat_of_int N \<Longrightarrow> round_half_even y \<le> N"
proof -
  assume a: "y \<le> rat_of_int N"
  then have "y < rat_of_int N + 1" by simp
  then have f: "\<lfloor>y\<rfloor> \<le> N" by (simp add: floor_le_iff)
  show ?thesis
  proof (cases "\<lfloor>y\<rfloor> = N")
    case True
    then have "y - rat_of_int \<lfloor>y\<rfloor> \<le> 0" using a by simp
    then show ?thesis using True by (simp add: round_half_even_def Let_def)
  next
    case False
    then have "\<lfloor>y\<rfloor> + 1 \<le> N" using f by simp
    then show ?thesis by (simp add: round_half_even_def Let_def)
  qed
qed

lemma round_half_even_nonneg: "0 \<le> y \<Longrightarrow> 0 \<le> round_half_even y"
proof -
  assume "0 \<le> y"
  then have "0 \<le> \<lfloor>y\<rfloor>" by simp
  then show ?thesis by (simp add: round_half_even_def Let_def)
qed

lemma round_positive_le:
  assumes "0 < x" and "x \<le> rat_of_int b" and "b \<le> 2 ^ 52"
  shows "round_positive x \<le> rat_of_int b"
proof -
  let ?e = "binade x"
  let ?k = "?e - 52"
  have "(2::rat) powi ?e \<le> x" using assms(1) by (rule binade_lower)
  also have "x \<le> rat_of_int b" by fact
  also have "rat_of_int b \<le> 2 ^ 52" using assms(3)
    by (metis of_int_le_iff of_int_numeral of_int_power)
  finally have "(2::rat) powi ?e \<le> 2 powi 52" by simp
  then have e: "?e \<le> 52"
    using power_int_le_imp_le_exp[of "2::rat" "binade x" 52] by simp
  define j where "j = nat (- ?k)"
  have k: "?k = - int j" using e by (simp add: j_def)
  have p: "(2::rat) powi ?k = 1 / 2 ^ j" unfolding k by (simp add: power_int_minus_divide)
  have "x / 2 powi ?k = x * 2 ^ j" unfolding p by simp
  also have "\<dots> \<le> rat_of_int b * 2 ^ j" using assms(2) by simp
  also have "\<dots> = rat_of_int (b * 2 ^ j)" by simp
  finally have "round_half_even (x / 2 powi ?k) \<le> b * 2 ^ j" by (rule round_half_even_le)
  then have "rat_of_int (round_half_even (x / 2 powi ?k)) \<le> rat_of_int (b * 2 ^ j)"
    by (simp only: of_int_le_iff)
  then have "rat_of_int (round_half_even (x / 2 powi ?k)) * (1 / 2 ^ j) \<le>
             rat_of_int (b * 2 ^ j) * (1 / 2 ^ j)"
    by (intro mult_right_mono) simp_all
  also have "rat_of_int (b * 2 ^ j) * (1 / 2 ^ j) = rat_of_int b" by simp
  finally show ?thesis unfolding round_positive_def Let_def p .
qed

lemma round_positive_nonneg: "0 < x \<Longrightarrow> 0 \<le> round_positive x"
proof -
  assume "0 < x"
  then have "0 \<le> x / 2 powi (binade x - 52)" by simp
  then have "0 \<le> round_half_even (x / 2 powi (binade x - 52))" by (rule round_half_even_nonneg)
  then show ?thesis by (simp add: round_positive_def Let_def)
qed

lemma round_double_range:
  assumes "0 \<le> x" and "x \<le> rat_of_int b" and "b \<le> 2 ^ 52"
  shows "0 \<le> round_double x \<and> round_double x \<le> rat_of_int b"
proof (cases "x = 0")
  case True
  then show ?thesis using assms by (simp add: round_double_def)
next
  case False
  then have "0 < x" using assms(1) by simp
  then show ?thesis
    using round_positive_le[OF _ assms(2,3)] round_positive_nonneg
    by (simp add: round_double_def)
qed

lemma percentage_range:
  assumes "c \<le> t" and "0 < t"
  shows "0 \<le> Math_round (js_times (js_divide (rat_of_nat c) (rat_of_nat t)) 100) \<and>
         Math_round (js_times (js_divide (rat_of_nat c) (rat_of_nat t)) 100) \<le> 100"
proof -
  let ?q = "round_double (rat_of_nat c / rat_of_nat t)"
  have "rat_of_nat c / rat_of_nat t \<le> 1" using assms by (simp add: divide_le_eq)
  then have "rat_of_nat c / rat_of_nat t \<le> rat_of_int 1" by simp
  moreover have "0 \<le> rat_of_nat c / rat_of_nat t" by simp
  ultimately have q: "0 \<le> ?q \<and> ?q \<le> rat_of_int 1"
    by (intro round_double_range) simp_all
  then have "0 \<le> ?q * 100" and "?q * 100 \<le> rat_of_int 100" by simp_all
  then have p: "0 \<le> round_double (?q * 100) \<and> round_double (?q * 100) \<le> rat_of_int 100"
    by (intro round_double_range) simp_all
  have "0 \<le> \<lfloor>round_double (?q * 100) + 1 / 2\<rfloor>" using p by (simp add: zero_le_floor)
  moreover have "\<lfloor>round_double (?q * 100) + 1 / 2\<rfloor> \<le> 100"
  proof -
    have "round_double (?q * 100) + 1 / 2 < 101" using p by simp
    then have "\<lfloor>round_double (?q * 100) + 1 / 2\<rfloor> < 101" by (simp add: floor_less_iff)
    then show ?thesis by simp
  qed
  ultimately show ?thesis by (simp add: Math_round_def js_times_def js_divide_def)
qed

text \<open>
  The rounding of the numbers shows in the score: 23 right answers of 40 are 57.5 percent
  exactly, but the product computed is just below 57.5 and the score is 57.
\<close>

lemma percentage_23_of_40:
  "Math_round (js_times (js_divide 23 40) 100) = 57"
  by code_simp

text \<open>
  Claim C10. For a quiz field with at least one question \<^verbatim>\<open>evaluateQuizResponse\<close> returns
  an integer between 0 and 100. It returns 0 when the response or its \<^verbatim>\<open>answers\<close> is
  missing or \<^verbatim>\<open>answers\<close> is not an array. Otherwise the score is the rounding of the
  quotient of the correct answers by the questions, times 100, as the numbers compute it;
  with no question the quotient is \<^verbatim>\<open>0 / 0\<close> and the result is \<^verbatim>\<open>NaN\<close>.
\<close>

theorem quiz_score_between_0_and_100:
  "(questions field \<noteq> [] \<longrightarrow>
      (\<exists>n. evaluateQuizResponse response field = Num n \<and> 0 \<le> n \<and> n \<le> 100)) \<and>
   (falsy response \<or> falsy (get_prop response ''answers'') \<or>
      (\<forall>xs. get_prop response ''answers'' \<noteq> JArr xs) \<longrightarrow>
        evaluateQuizResponse response field = Num 0) \<and>
   (\<not> falsy response \<and> get_prop response ''answers'' = JArr answers \<and> questions field \<noteq> [] \<longrightarrow>
      evaluateQuizResponse response field =
        Num (Math_round (js_times
               (js_divide (rat_of_nat (count_correct answers 0 (questions field)))
                          (rat_of_nat (length (questions field)))) 100))) \<and>
   (\<not> falsy response \<and> get_prop response ''answers'' = JArr answers \<and> questions field = [] \<longrightarrow>
      evaluateQuizResponse response field = NaN)"
proof -
  have bounds: "\<exists>n. evaluateQuizResponse response field = Num n \<and> 0 \<le> n \<and> n \<le> 100"
    if ne: "questions field \<noteq> []"
  proof (cases "falsy response \<or> falsy (get_prop response ''answers'')")
    case True
    then show ?thesis by (auto simp: evaluateQuizResponse_def)
  next
    case False
    show ?thesis
    proof (cases "get_prop response ''answers''")
      case (JArr xs)
      have "0 < length (questions field)" using ne by simp
      from percentage_range[OF count_correct_le this, of xs 0]
      show ?thesis using False JArr ne by (simp add: evaluateQuizResponse_def Let_def)
    qed (use False in \<open>simp_all add: evaluateQuizResponse_def\<close>)
  qed
  have zero: "evaluateQuizResponse response field = Num 0"
    if "falsy response \<or> falsy (get_prop response ''answers'') \<or>
      (\<forall>xs. get_prop response ''answers'' \<noteq> JArr xs)"
    using that by (cases "get_prop response ''answers''") (auto simp: evaluateQuizResponse_def)
  have val: "evaluateQuizResponse response field =
        Num (Math_round (js_times
               (js_divide (rat_of_nat (count_correct answers 0 (questions field)))
                          (rat_of_nat (length (questions field)))) 100))"
    if "\<not> falsy response \<and> get_prop response ''answers'' = JArr answers \<and> questions field \<noteq> []"
    using that by (simp add: evaluateQuizResponse_def Let_def)
  have nan: "evaluateQuizResponse response field = NaN"
    if "\<not> falsy response \<and> get_prop response ''answers'' = JArr answers \<and> questions field = []"
    using that by (simp add: evaluateQuizResponse_def Let_def)
  show ?thesis using bounds zero val nan by blast
qed

text \<open>
  Two of the three answers of \<open>ex_quiz_response\<close> are right; an empty response scores 0.
\<close>

theorem quiz_score_witness:
  "questions ex_quiz \<noteq> [] \<and> evaluateQuizResponse ex_quiz_response ex_quiz = Num 67 \<and>
   evaluateQuizResponse (JObj []) ex_quiz = Num 0"
proof -
  have h: "questions ex_quiz \<noteq> []" by (simp add: ex_quiz_def)
  have p: "\<not> falsy ex_quiz_response \<and>
           get_prop ex_quiz_response ''answers'' = JArr [JNum 2, JStr ''a'', JNum 0]"
    by (simp add: ex_quiz_response_def)
  have c: "count_correct [JNum 2, JStr ''a'', JNum 0] 0 (questions ex_quiz) = 2"
    by (simp add: ex_quiz_def at_index_def)
  have l: "length (questions ex_quiz) = 3" by (simp add: ex_quiz_def)
  have r: "Math_round (js_times (js_divide (rat_of_nat 2) (rat_of_nat 3)) 100) = 67"
    by code_simp
  from quiz_score_between_0_and_100 [of ex_quiz ex_quiz_response "[JNum 2, JStr ''a'', JNum 0]"]
  have "evaluateQuizResponse ex_quiz_response ex_quiz = Num 67" using h p c l r by simp
  moreover from quiz_score_between_0_and_100 [of ex_quiz "JObj []" "[]"]
  have "evaluateQuizResponse (JObj []) ex_quiz = Num 0" by simp
  ultimately show ?thesis using h by simp
qed

subsection \<open>Session registration\<close>

text \<open>
  In \<open>ex_sessions\<close> user u3 registers for the open session s2; the store accepts the push
  and rejects the transaction on the counter. The registration fails, yet the attendee is
  stored: a failed registration has written part of its state.
\<close>

theorem rejected_transaction_leaves_attendee_counterexample:
  "snd (registerForSession \<lparr>push_key = Some ''-k3'', transaction_succeeded = False\<rparr>
          ex_sessions 30 ''s2'' ''u3'') = Inl WriteRejected \<and>
   map_option ses_attendees (sessions ex_sessions ''s2'') = Some NoAttendees \<and>
   map_option ses_attendees
     (sessions (fst (registerForSession \<lparr>push_key = Some ''-k3'', transaction_succeeded = False\<rparr>
                       ex_sessions 30 ''s2'' ''u3'')) ''s2'') =
     Some (AttendeeObject
       [(''-k3'', \<lparr>att_userId = ''u3'', att_status = ''confirmed'', att_registeredAt = 30\<rparr>)])"
  by (simp add: registerForSession_def checkSessionEligibility_def alreadyRegistered_def
      push_attendee_def ex_sessions_def ex_open_session_def Let_def)

text \<open>
  Claim C8, amended. Registering for a session whose \<^verbatim>\<open>capacity.current\<close> equals
  \<^verbatim>\<open>capacity.max\<close> throws "Session is full" and leaves the store, hence the counter and
  the attendees, unchanged. A registration that fails at a guard (session not found,
  session full, user not eligible, or the eligibility check throwing) or at the push of
  the attendee leaves the store unchanged. A registration that succeeds found the counter
  below the maximum, has pushed the attendee and has incremented the counter.
\<close>

theorem full_session_registration_rejected:
  "(sessions st sessionId = Some ses \<and>
      cap_current (ses_capacity ses) = cap_max (ses_capacity ses) \<longrightarrow>
        registerForSession io st now sessionId userId = (st, Inl (Error ''Session is full''))) \<and>
   (snd (registerForSession io st now sessionId userId) = Inl e \<and>
      (e \<noteq> WriteRejected \<or> push_key io = None) \<longrightarrow>
        fst (registerForSession io st now sessionId userId) = st) \<and>
   (snd (registerForSession io st now sessionId userId) = Inr b \<longrightarrow>
      (\<exists>ses' key. sessions st sessionId = Some ses' \<and>
         cap_current (ses_capacity ses') < cap_max (ses_capacity ses') \<and>
         push_key io = Some key \<and> transaction_succeeded io \<and>
         sessions (fst (registerForSession io st now sessionId userId)) sessionId =
           Some (ses'\<lparr>ses_attendees :=
                        push_attendee key
                          \<lparr>att_userId = userId, att_status = ''confirmed'', att_registeredAt = now\<rparr>
                          (ses_attendees ses'),
                      ses_capacity := (ses_capacity ses')
                        \<lparr>cap_current := cap_current (ses_capacity ses') + 1\<rparr>\<rparr>)))"
  by (auto simp: registerForSession_def Let_def split: option.splits if_splits sum.splits)

text \<open>
  The session s1 of \<open>ex_sessions\<close> is full.
\<close>

theorem full_session_witness:
  "sessions ex_sessions ''s1'' = Some ex_full_session \<and>
   cap_current (ses_capacity ex_full_session) = cap_max (ses_capacity ex_full_session) \<and>
   registerForSession \<lparr>push_key = Some ''-k3'', transaction_succeeded = True\<rparr>
     ex_sessions 30 ''s1'' ''u3'' = (ex_sessions, Inl (Error ''Session is full''))"
proof -
  have h: "sessions ex_sessions ''s1'' = Some ex_full_session \<and>
     cap_current (ses_capacity ex_full_session) = cap_max (ses_capacity ex_full_session)"
    by (simp add: ex_sessions_def ex_full_session_def)
  have "registerForSession \<lparr>push_key = Some ''-k3'', transaction_succeeded = True\<rparr>
          ex_sessions 30 ''s1'' ''u3'' = (ex_sessions, Inl (Error ''Session is full''))"
    by (rule full_session_registration_rejected
          [of ex_sessions "''s1''" ex_full_session
              "\<lparr>push_key = Some ''-k3'', transaction_succeeded = True\<rparr>" 30 "''u3''",
           THEN conjunct1, THEN mp, OF h])
  with h show ?thesis by blast
qed

subsection \<open>Assignment status\<close>

lemma validTransitions_permitted:
  "(case map_of validTransitions old of None \<Rightarrow> False | Some allowed \<Rightarrow> new \<in> set allowed)
     \<longleftrightarrow> (old, new) \<in> permitted_transitions"
  by (auto simp: validTransitions_def permitted_transitions_def split: if_splits)

lemma update_result:
  "tasks assignmentId = Some asg \<Longrightarrow>
   update_assignment_status tasks now assignmentId status userId level =
     (let l = (case level of None \<Rightarrow> 0 | Some l \<Rightarrow> l) in
      if asg_assignedTo asg \<noteq> userId \<and> l < 5 then
        (tasks, Forbidden403 ''Not authorized to update this assignment'')
      else if l < 5 \<and> asg_status asg = ''under_review'' \<and> status \<noteq> ''in_progress'' then
        (tasks, Forbidden403 ''Only managers can approve assignments'')
      else if (asg_status asg, status) \<notin> permitted_transitions then (tasks, BadRequest400)
      else (tasks(assignmentId \<mapsto>
              (if status = ''completed''
               then asg\<lparr>asg_status := status, asg_updatedAt := Some (now div 1000),
                        asg_completedAt := Some (now div 1000), asg_completedBy := Some userId\<rparr>
               else asg\<lparr>asg_status := status, asg_updatedAt := Some (now div 1000)\<rparr>)),
            Updated200 (asg_status asg) status))"
  unfolding update_assignment_status_def
  by (simp add: Let_def validTransitions_permitted not_le)

text \<open>
  Claim C9. A status update succeeds only along one of the transitions pending to
  in_progress, in_progress to under_review, in_progress to pending, under_review to
  completed, under_review to in_progress, and only for the assigned user or a profile of
  level at least 5; under_review to completed succeeds only for level at least 5. A
  profile of level at least 5 may perform each of the five transitions, the assigned user
  each but under_review to completed. Nothing leaves completed. Every request that does
  not succeed leaves the assignments unchanged.
\<close>

theorem assignment_status_transitions:
  "(snd (update_assignment_status tasks now assignmentId status userId level) = Updated200 old new \<longrightarrow>
      (\<exists>asg. tasks assignmentId = Some asg \<and> asg_status asg = old \<and> status = new \<and>
         (old, new) \<in> permitted_transitions \<and>
         (asg_assignedTo asg = userId \<or> (\<exists>l. level = Some l \<and> l \<ge> 5)) \<and>
         (old = ''under_review'' \<and> new = ''completed'' \<longrightarrow> (\<exists>l. level = Some l \<and> l \<ge> 5)) \<and>
         (\<exists>asg'. fst (update_assignment_status tasks now assignmentId status userId level)
                    assignmentId = Some asg' \<and> asg_status asg' = new))) \<and>
   (tasks assignmentId = Some asg \<and> (asg_status asg, status) \<in> permitted_transitions \<and>
    level = Some l \<and> l \<ge> 5 \<longrightarrow>
      snd (update_assignment_status tasks now assignmentId status userId level) =
        Updated200 (asg_status asg) status) \<and>
   (tasks assignmentId = Some asg \<and> (asg_status asg, status) \<in> permitted_transitions \<and>
    asg_assignedTo asg = userId \<and> (asg_status asg, status) \<noteq> (''under_review'', ''completed'') \<longrightarrow>
      snd (update_assignment_status tasks now assignmentId status userId level) =
        Updated200 (asg_status asg) status) \<and>
   (tasks assignmentId = Some asg \<and> asg_status asg = ''completed'' \<longrightarrow>
      (\<forall>a b. snd (update_assignment_status tasks now assignmentId status userId level) \<noteq> Updated200 a b)) \<and>
   ((\<forall>a b. snd (update_assignment_status tasks now assignmentId status userId level) \<noteq> Updated200 a b) \<longrightarrow>
      fst (update_assignment_status tasks now assignmentId status userId level) = tasks)"
proof (cases "tasks assignmentId")
  case None
  then show ?thesis by (simp add: update_assignment_status_def)
next
  case (Some a)
  show ?thesis
    unfolding update_result[of tasks assignmentId a now status userId level, OF Some]
    using Some
    by (auto simp: Let_def permitted_transitions_def split: option.splits if_splits)
qed

text \<open>
  A level-7 profile completes the task under review.
\<close>

theorem assignment_status_witness:
  "[''a1'' \<mapsto> ex_task] ''a1'' = Some ex_task \<and>
   (asg_status ex_task, ''completed'') \<in> permitted_transitions \<and>
   Some (7::int) = Some 7 \<and> (7::int) \<ge> 5 \<and>
   snd (update_assignment_status [''a1'' \<mapsto> ex_task] 5000 ''a1'' ''completed'' ''m1'' (Some 7)) =
     Updated200 (asg_status ex_task) ''completed''"
proof -
  have h: "[''a1'' \<mapsto> ex_task] ''a1'' = Some ex_task \<and>
     (asg_status ex_task, ''completed'') \<in> permitted_transitions \<and>
     Some (7::int) = Some 7 \<and> (7::int) \<ge> 5"
    by (simp add: ex_task_def permitted_transitions_def)
  have r: "snd (update_assignment_status [''a1'' \<mapsto> ex_task] 5000 ''a1'' ''completed'' ''m1'' (Some 7)) =
     Updated200 (asg_status ex_task) ''completed''"
    by (rule assignment_status_transitions
          [of "[''a1'' \<mapsto> ex_task]" 5000 "''a1''" "''completed''" "''m1''" "Some 7" _ _ ex_task 7,
           THEN conjunct2, THEN conjunct1, THEN mp, OF h])
  from h r show ?thesis by blast
qed

subsection \<open>App access matrix\<close>

lemma set_foldl_set_add: "set (foldl set_add acc xs) = set acc \<union> set xs"
  by (induction xs arbitrary: acc) (auto simp: set_add_def)

lemma distinct_foldl_set_add: "distinct acc \<Longrightarrow> distinct (foldl set_add acc xs)"
  by (induction xs arbitrary: acc) (auto simp: set_add_def)

lemma set_dedupe: "set (dedupe xs) = set xs"
  by (simp add: dedupe_def set_foldl_set_add)

lemma distinct_dedupe: "distinct (dedupe xs)"
  by (simp add: dedupe_def distinct_foldl_set_add)

lemma set_allApps: "set allApps = (\<Union>(category, apps) \<in> set APP_ACCESS_MATRIX. set apps)"
  unfolding allApps_def by auto

lemma matrix_lookup_cases:
  "matrix_lookup name =
     (case map_of APP_ACCESS_MATRIX name of
        Some apps \<Rightarrow> OwnList apps
      | None \<Rightarrow> if name \<in> set Object_prototype_members then InheritedMember else NoEntry)"
  by (simp add: matrix_lookup_def)

text \<open>
  Where the claim holds: for a privileged profile the result is every app of the matrix,
  each once; for any other profile whose department is not the name of an inherited
  member, it is the universal apps followed by the department's entry, if any, each once.
\<close>

lemma accessible_apps_outside_inherited_names:
  "(userLevel_of userData \<ge> 10 \<or> getUserDepartmentGroup userData = ''corporate'' \<or>
    userLevel_of userData \<ge> 5 \<longrightarrow>
      getUserAccessibleApps userData = Inr (dedupe (concat (map snd APP_ACCESS_MATRIX))) \<and>
      set (dedupe (concat (map snd APP_ACCESS_MATRIX))) =
        (\<Union>(category, apps) \<in> set APP_ACCESS_MATRIX. set apps) \<and>
      distinct (dedupe (concat (map snd APP_ACCESS_MATRIX)))) \<and>
   (\<not> (userLevel_of userData \<ge> 10 \<or> getUserDepartmentGroup userData = ''corporate'' \<or>
       userLevel_of userData \<ge> 5) \<and>
    getUserDepartmentGroup userData \<notin> set Object_prototype_members \<longrightarrow>
      getUserAccessibleApps userData =
        Inr (dedupe (universal_apps @
          (case map_of APP_ACCESS_MATRIX (getUserDepartmentGroup userData) of
             None \<Rightarrow> [] | Some apps \<Rightarrow> apps))))"
proof (intro conjI impI)
  assume p: "userLevel_of userData \<ge> 10 \<or> getUserDepartmentGroup userData = ''corporate'' \<or>
    userLevel_of userData \<ge> 5"
  then have "getUserAccessibleApps userData = Inr (dedupe allApps)"
    by (auto simp: getUserAccessibleApps_def Let_def PERMISSION_LEVEL_DEVELOPER_def
        PERMISSION_LEVEL_CORPORATE_def DEPARTMENT_CORPORATE_def)
  then show "getUserAccessibleApps userData = Inr (dedupe (concat (map snd APP_ACCESS_MATRIX)))"
    by (simp add: allApps_def)
  show "set (dedupe (concat (map snd APP_ACCESS_MATRIX))) =
        (\<Union>(category, apps) \<in> set APP_ACCESS_MATRIX. set apps)"
    unfolding set_dedupe using set_allApps by (simp add: allApps_def)
  show "distinct (dedupe (concat (map snd APP_ACCESS_MATRIX)))" by (rule distinct_dedupe)
next
  assume n: "\<not> (userLevel_of userData \<ge> 10 \<or> getUserDepartmentGroup userData = ''corporate'' \<or>
       userLevel_of userData \<ge> 5) \<and>
    getUserDepartmentGroup userData \<notin> set Object_prototype_members"
  then show "getUserAccessibleApps userData =
        Inr (dedupe (universal_apps @
          (case map_of APP_ACCESS_MATRIX (getUserDepartmentGroup userData) of
             None \<Rightarrow> [] | Some apps \<Rightarrow> apps)))"
    by (simp add: getUserAccessibleApps_def Let_def PERMISSION_LEVEL_DEVELOPER_def
        PERMISSION_LEVEL_CORPORATE_def DEPARTMENT_CORPORATE_def matrix_lookup_cases
        split: option.split)
qed

lemma accessible_apps_lr_user:
  "getUserAccessibleApps ex_lr_user =
     Inr [''maia'', ''forms'', ''bake'', ''dof'', ''community'', ''sessions'',
          ''myhr-basic'', ''performance'', ''courses-mr'']"
  by code_simp

text \<open>
  Claim C5 fails on the code. A level-1 user whose department is named
  \<^verbatim>\<open>constructor\<close> is none of the privileged profiles, and the matrix has no entry of
  that name; the claim promises the universal apps, but the lookup finds the member every
  object inherits and spreading it throws a \<^verbatim>\<open>TypeError\<close>.
\<close>

theorem inherited_department_name_throws:
  "userLevel_of ex_constructor_user = 1 \<and>
   getUserDepartmentGroup ex_constructor_user = ''constructor'' \<and>
   map_of APP_ACCESS_MATRIX ''constructor'' = None \<and>
   getUserAccessibleApps ex_constructor_user = Inl TypeError"
  by code_simp

subsection \<open>Form eligibility\<close>

text \<open>
  Whenever form and user exist and the four requirement tests pass, the call reaches the
  query and throws: it returns neither \<^verbatim>\<open>eligible: true\<close> nor the guard's
  \<^verbatim>\<open>eligible: false\<close>. Every object the call does return says \<^verbatim>\<open>eligible: false\<close>.
\<close>

lemma checkFormEligibility_reaches_query:
  assumes "templates st formId = Some form" and "form_users st userId = Some user"
    and "requirements_pass form user now"
  shows "checkFormEligibility st now formId userId = Inl QueryError"
  using assms
  by (simp add: checkFormEligibility_def requirements_pass_def requirements_of_def
      existingSubmission_def Let_def)

lemma checkFormEligibility_never_eligible:
  "checkFormEligibility st now formId userId = Inr r \<Longrightarrow> \<not> eligible r"
  by (auto simp: checkFormEligibility_def existingSubmission_def Let_def
      split: option.splits if_splits)

text \<open>
  Claim C6 fails on the code. In \<open>ex_forms\<close> both users pass the four requirement tests of
  form f1. For u2, who has an approved submission, the claim promises
  \<^verbatim>\<open>eligible: false\<close>; for u1, who has only a rejected one, \<^verbatim>\<open>eligible: true\<close>. Both
  calls throw at the query.
\<close>

theorem duplicate_submission_query_throws:
  "checkFormEligibility ex_forms 691200000 ''f1'' ''u2'' = Inl QueryError \<and>
   checkFormEligibility ex_forms 691200000 ''f1'' ''u1'' = Inl QueryError"
  by code_simp

end
